theory Spec2Isabelle
  imports Main "HOL-Library.AList" "HOL-Library.Char_ord" "HOL-Library.List_Lexorder"
begin

section \<open>Values shared by both backends\<close>

text \<open>
  The repository has one interface, \<open>Storage\<close>, and two implementations of it:
  \<open>LocalStorage\<close> (a directory tree under \<open>rootDir\<close>) and \<open>GCSStorage\<close> (a bucket of a
  cloud object store reached through a client handle). Every method is a short sequence of
  calls into the operating system or into the cloud client. The embedding keeps the methods
  as they are written and makes the two collaborators explicit: a file-system state and a
  bucket state, each with the list of backend calls made so far and a script of failures
  that the environment injects (disk full, another device, a lost connection).

  Object contents are byte strings; \<open>char\<close> is an 8-bit type. Sizes are Go's \<open>int64\<close>,
  written as \<open>int\<close> (no file of the model reaches \<open>2^63\<close> bytes). Times are abstract
  natural numbers read from the state's clock.
\<close>

type_synonym bytes = "char list"

type_synonym metadata = "(string \<times> string) list"

text \<open>Error numbers of the operating system that the model can produce.\<close>

datatype errno =
  ENOENT | ENOTDIR | EISDIR | ENOTEMPTY | EEXIST | EINVAL | EBUSY | EXDEV | EIO | ENOSPC | EACCES

text \<open>
  Go \<open>error\<close> values. \<open>Errorf m\<close> is \<open>fmt.Errorf(m)\<close>; \<open>Errorf_w m args e\<close> is
  \<open>fmt.Errorf(m + ": %w", args..., e)\<close>, the format string kept without its last verb and
  the formatted arguments kept as a list. \<open>PathError\<close> and \<open>LinkError\<close> are the errors of
  package \<open>os\<close>; the last three are what the cloud client returns.
\<close>

datatype error =
    Errorf string
  | Errorf_w string "string list" error
  | PathError string string errno
  | LinkError string string string errno
  | ErrObjectNotExist
  | ErrBucketNotExist
  | TransportError string

text \<open>
  An \<open>io.Reader\<close>: the bytes it yields, then end of file (\<open>None\<close>) or an error.
\<close>

datatype reader = Reader bytes "error option"

record PutOptions =
  ContentType :: string
  Metadata :: metadata

record ObjectInfo =
  Name :: string
  Size :: int
  UpdatedAt :: nat
  Info_Metadata :: metadata

section \<open>Paths: \<open>path.Join\<close>, \<open>filepath.Join\<close>, \<open>filepath.Dir\<close>\<close>

text \<open>
  The model is of a Unix system: the separator is the slash, there are no volume names,
  and \<open>filepath.ToSlash\<close> returns its argument. \<open>Clean\<close> follows the four rules of its
  documentation on the list of path elements: empty elements and \<open>.\<close> are dropped, an inner
  \<open>..\<close> removes the element before it, a \<open>..\<close> at the start of a rooted path is dropped,
  and the empty result is \<open>.\<close>.
\<close>

primrec split_slash :: "string \<Rightarrow> string list" where
  "split_slash [] = [[]]"
| "split_slash (c # cs) =
     (if c = CHR ''/'' then [] # split_slash cs
      else (case split_slash cs of [] \<Rightarrow> [[c]] | x # xs \<Rightarrow> (c # x) # xs))"

definition join_slash :: "string list \<Rightarrow> string" where
  "join_slash xs = (case xs of [] \<Rightarrow> [] | y # ys \<Rightarrow> foldl (\<lambda>acc e. acc @ ''/'' @ e) y ys)"

definition rooted :: "string \<Rightarrow> bool" where
  "rooted p = (case p of [] \<Rightarrow> False | c # _ \<Rightarrow> c = CHR ''/'')"

definition clean_step :: "bool \<Rightarrow> string list \<Rightarrow> string \<Rightarrow> string list" where
  "clean_step r out c =
     (if c = [] \<or> c = ''.'' then out
      else if c = ''..'' then
        (if out \<noteq> [] \<and> last out \<noteq> ''..'' then butlast out
         else if \<not> r then out @ [''..'']
         else out)
      else out @ [c])"

definition Clean :: "string \<Rightarrow> string" where
  "Clean p =
     (if p = [] then ''.''
      else let out = foldl (clean_step (rooted p)) [] (split_slash p)
           in if rooted p then CHR ''/'' # join_slash out
              else if out = [] then ''.''
              else join_slash out)"

definition Join :: "string list \<Rightarrow> string" where
  "Join elem =
     (case dropWhile (\<lambda>e. e = []) elem of
        [] \<Rightarrow> []
      | e # es \<Rightarrow> Clean (join_slash (e # es)))"

definition Dir_path :: "string \<Rightarrow> string" where
  "Dir_path p = Clean (rev (dropWhile (\<lambda>c. c \<noteq> CHR ''/'') (rev p)))"

definition ToSlash :: "string \<Rightarrow> string" where
  "ToSlash p = p"

section \<open>The file system\<close>

text \<open>
  A file system is a tree: a regular file holds its bytes and its modification time, a
  directory holds named entries. There are no symbolic links and no permission bits; what
  they would cause is among the failures the environment injects. The operations on the
  tree are those of package \<open>os\<close> that the source calls, after their documentation and
  that of the system calls below them: a lookup through a missing entry fails with
  \<open>ENOENT\<close>, a lookup through a regular file with \<open>ENOTDIR\<close>.
\<close>

datatype node = File bytes nat | Dir "(string \<times> node) list"

fun walk :: "node \<Rightarrow> string list \<Rightarrow> errno + node" where
  "walk n [] = Inr n"
| "walk (File b t) (c # cs) = Inl ENOTDIR"
| "walk (Dir es) (c # cs) =
     (case map_of es c of None \<Rightarrow> Inl ENOENT | Some m \<Rightarrow> walk m cs)"

text \<open>
  \<open>alter f p n\<close> applies \<open>f\<close> to the entry that the last element of \<open>p\<close> names in its
  parent directory: \<open>f\<close> sees the entry if there is one, and answers with the entry to
  store, with \<open>None\<close> to remove it, or with an error. The root itself has no parent.
\<close>

fun alter :: "(node option \<Rightarrow> errno + node option) \<Rightarrow> string list \<Rightarrow> node \<Rightarrow> errno + node" where
  "alter f [] n = Inl EBUSY"
| "alter f (c # cs) (File b t) = Inl ENOTDIR"
| "alter f (c # cs) (Dir es) =
     (if cs = [] then
        (case f (map_of es c) of
           Inl e \<Rightarrow> Inl e
         | Inr None \<Rightarrow> Inr (Dir (AList.delete c es))
         | Inr (Some m) \<Rightarrow> Inr (Dir (AList.update c m es)))
      else
        (case map_of es c of
           None \<Rightarrow> Inl ENOENT
         | Some m \<Rightarrow>
             (case alter f cs m of
                Inl e \<Rightarrow> Inl e
              | Inr m' \<Rightarrow> Inr (Dir (AList.update c m' es)))))"

fun mkdir_all :: "string list \<Rightarrow> node \<Rightarrow> errno + node" where
  "mkdir_all p (File b t) = Inl ENOTDIR"
| "mkdir_all [] (Dir es) = Inr (Dir es)"
| "mkdir_all (c # cs) (Dir es) =
     (case mkdir_all cs (case map_of es c of None \<Rightarrow> Dir [] | Some m \<Rightarrow> m) of
        Inl e \<Rightarrow> Inl e
      | Inr m' \<Rightarrow> Inr (Dir (AList.update c m' es)))"

definition create_entry :: "nat \<Rightarrow> node option \<Rightarrow> errno + node option" where
  "create_entry now cur =
     (case cur of
        Some (Dir es) \<Rightarrow> Inl EISDIR
      | _ \<Rightarrow> Inr (Some (File [] now)))"

definition write_entry :: "bytes \<Rightarrow> nat \<Rightarrow> node option \<Rightarrow> errno + node option" where
  "write_entry bs now cur =
     (case cur of
        Some (File b t) \<Rightarrow> Inr (Some (File bs now))
      | _ \<Rightarrow> Inl EIO)"

definition remove_entry :: "node option \<Rightarrow> errno + node option" where
  "remove_entry cur =
     (case cur of
        None \<Rightarrow> Inl ENOENT
      | Some (File b t) \<Rightarrow> Inr None
      | Some (Dir es) \<Rightarrow> (if es = [] then Inr None else Inl ENOTEMPTY))"

definition place_entry :: "node \<Rightarrow> node option \<Rightarrow> errno + node option" where
  "place_entry n cur =
     (case (n, cur) of
        (_, None) \<Rightarrow> Inr (Some n)
      | (File b t, Some (File b' t')) \<Rightarrow> Inr (Some n)
      | (File b t, Some (Dir es)) \<Rightarrow> Inl EISDIR
      | (Dir es, Some (File b' t')) \<Rightarrow> Inl ENOTDIR
      | (Dir es, Some (Dir es')) \<Rightarrow> (if es' = [] then Inr (Some n) else Inl ENOTEMPTY))"

definition rename_tree :: "string list \<Rightarrow> string list \<Rightarrow> node \<Rightarrow> errno + node" where
  "rename_tree old new t =
     (case walk t old of
        Inl e \<Rightarrow> Inl e
      | Inr n \<Rightarrow>
          if old = [] \<or> new = [] then Inl EBUSY
          else if old = new then Inr t
          else if take (length old) new = old then Inl EINVAL
          else (case alter (place_entry n) new t of
                  Inl e \<Rightarrow> Inl e
                | Inr t1 \<Rightarrow> alter (\<lambda>_. Inr None) old t1))"

text \<open>
  A failure the environment injects into one backend call: \<open>Fail e\<close> makes the call fail
  with \<open>e\<close>; \<open>Short k e\<close> lets a data transfer move \<open>k\<close> bytes (a listing yields \<open>k\<close>
  entries) and then fail with \<open>e\<close>; on any other call it is \<open>Fail e\<close>. Each backend call
  takes the next entry of the script; an empty script injects nothing.
\<close>

datatype 'e fault = NoFault | Fail 'e | Short nat 'e

datatype os_call =
    Call_Open string
  | Call_Create string
  | Call_Write string
  | Call_MkdirAll string nat
  | Call_ReadDir string
  | Call_Lstat string
  | Call_Rename string string
  | Call_Remove string
  | Call_RemoveAll string

record filesystem =
  tree :: node
  cwd :: "string list"
  clock :: nat
  calls :: "os_call list"
  faults :: "errno fault list"

definition enter :: "os_call \<Rightarrow> filesystem \<Rightarrow> errno fault \<times> filesystem" where
  "enter c w =
     (case faults w of
        [] \<Rightarrow> (NoFault, w\<lparr>calls := calls w @ [c]\<rparr>)
      | f # fs \<Rightarrow> (f, w\<lparr>calls := calls w @ [c], faults := fs\<rparr>))"

definition fault_errno :: "'e fault \<Rightarrow> 'e option" where
  "fault_errno f = (case f of NoFault \<Rightarrow> None | Fail e \<Rightarrow> Some e | Short k e \<Rightarrow> Some e)"

definition fault_limit :: "'e fault \<Rightarrow> (nat \<times> 'e) option" where
  "fault_limit f = (case f of NoFault \<Rightarrow> None | Fail e \<Rightarrow> Some (0, e) | Short k e \<Rightarrow> Some (k, e))"

text \<open>
  A path string names a node from the root when it starts with a slash and from the
  working directory otherwise. All paths that reach the operating system here come out of
  \<open>Join\<close> or \<open>Dir_path\<close>, so \<open>..\<close> can only lead a relative path.
\<close>

definition resolve_step :: "string list \<Rightarrow> string \<Rightarrow> string list" where
  "resolve_step acc c =
     (if c = [] \<or> c = ''.'' then acc
      else if c = ''..'' then butlast acc
      else acc @ [c])"

definition resolve :: "string list \<Rightarrow> string \<Rightarrow> string list" where
  "resolve wd p = foldl resolve_step (if rooted p then [] else wd) (split_slash p)"

definition locate :: "filesystem \<Rightarrow> string \<Rightarrow> errno + node" where
  "locate w p = (if p = [] then Inl ENOENT else walk (tree w) (resolve (cwd w) p))"

text \<open>
  \<open>os.IsNotExist\<close> looks inside a \<open>PathError\<close> or \<open>LinkError\<close> (not inside an error
  wrapped by \<open>fmt.Errorf\<close>) and holds for \<open>ENOENT\<close> only.
\<close>

fun os_IsNotExist :: "error \<Rightarrow> bool" where
  "os_IsNotExist (PathError op p e) = (e = ENOENT)"
| "os_IsNotExist (LinkError op old new e) = (e = ENOENT)"
| "os_IsNotExist _ = False"

text \<open>An open file is known by the path it was opened with.\<close>

datatype os_File = OpenFile string

definition os_Open :: "string \<Rightarrow> filesystem \<Rightarrow> (error + os_File) \<times> filesystem" where
  "os_Open p w =
     (let (f, w1) = enter (Call_Open p) w in
      case fault_errno f of
        Some e \<Rightarrow> (Inl (PathError ''open'' p e), w1)
      | None \<Rightarrow>
          (case locate w1 p of
             Inl e \<Rightarrow> (Inl (PathError ''open'' p e), w1)
           | Inr n \<Rightarrow> (Inr (OpenFile p), w1)))"

text \<open>
  What reading an open file to its end yields in a given state. Reading a directory fails.
\<close>

definition file_reader :: "os_File \<Rightarrow> filesystem \<Rightarrow> reader" where
  "file_reader f w =
     (case f of OpenFile p \<Rightarrow>
        (case locate w p of
           Inr (File b t) \<Rightarrow> Reader b None
         | Inr (Dir es) \<Rightarrow> Reader [] (Some (PathError ''read'' p EISDIR))
         | Inl e \<Rightarrow> Reader [] (Some (PathError ''read'' p e))))"

definition set_tree :: "filesystem \<Rightarrow> string \<Rightarrow> (string list \<Rightarrow> node \<Rightarrow> errno + node) \<Rightarrow> errno option \<times> filesystem" where
  "set_tree w p op =
     (if p = [] then (Some ENOENT, w)
      else (case op (resolve (cwd w) p) (tree w) of
              Inl e \<Rightarrow> (Some e, w)
            | Inr t \<Rightarrow> (None, w\<lparr>tree := t\<rparr>)))"

definition os_Create :: "string \<Rightarrow> filesystem \<Rightarrow> (error + os_File) \<times> filesystem" where
  "os_Create p w =
     (let (f, w1) = enter (Call_Create p) w in
      case fault_errno f of
        Some e \<Rightarrow> (Inl (PathError ''open'' p e), w1)
      | None \<Rightarrow>
          (if p \<noteq> [] \<and> resolve (cwd w1) p = [] then (Inl (PathError ''open'' p EISDIR), w1)
           else (case set_tree w1 p (alter (create_entry (clock w1))) of
                   (Some e, w2) \<Rightarrow> (Inl (PathError ''open'' p e), w2)
                 | (None, w2) \<Rightarrow> (Inr (OpenFile p), w2))))"

text \<open>
  \<open>io.Copy(f, r)\<close> into a file that \<open>os.Create\<close> has just opened: the bytes of \<open>r\<close> become
  the contents of the file. It returns the number of bytes written and the first error,
  the reader's or the writer's. When the device takes only \<open>k\<close> bytes, the file keeps them.
\<close>

definition io_Copy :: "os_File \<Rightarrow> reader \<Rightarrow> filesystem \<Rightarrow> (int \<times> error option) \<times> filesystem" where
  "io_Copy dst r w =
     (case (dst, r) of (OpenFile p, Reader bs rerr) \<Rightarrow>
        (let (f, w1) = enter (Call_Write p) w in
         case fault_limit f of
           None \<Rightarrow>
             (case set_tree w1 p (alter (write_entry bs (clock w1))) of
                (Some e, w2) \<Rightarrow> ((0, Some (PathError ''write'' p e)), w2)
              | (None, w2) \<Rightarrow> ((int (length bs), rerr), w2))
         | Some (k, e) \<Rightarrow>
             (if length bs \<le> k then
                (case set_tree w1 p (alter (write_entry bs (clock w1))) of
                   (Some e', w2) \<Rightarrow> ((0, Some (PathError ''write'' p e')), w2)
                 | (None, w2) \<Rightarrow> ((int (length bs), rerr), w2))
              else
                (case set_tree w1 p (alter (write_entry (take k bs) (clock w1))) of
                   (Some e', w2) \<Rightarrow> ((0, Some (PathError ''write'' p e')), w2)
                 | (None, w2) \<Rightarrow> ((int k, Some (PathError ''write'' p e)), w2)))))"

definition os_MkdirAll :: "string \<Rightarrow> nat \<Rightarrow> filesystem \<Rightarrow> error option \<times> filesystem" where
  "os_MkdirAll p perm w =
     (let (f, w1) = enter (Call_MkdirAll p perm) w in
      case fault_errno f of
        Some e \<Rightarrow> (Some (PathError ''mkdir'' p e), w1)
      | None \<Rightarrow>
          (case set_tree w1 p mkdir_all of
             (Some e, w2) \<Rightarrow> (Some (PathError ''mkdir'' p e), w2)
           | (None, w2) \<Rightarrow> (None, w2)))"

text \<open>
  A directory entry as \<open>os.ReadDir\<close> returns it: the entry's name, whether it is a
  directory, and the path at which \<open>Info\<close> will look the entry up again. \<open>os.ReadDir\<close>
  returns the entries sorted by file name.
\<close>

record DirEntry =
  entry_Name :: string
  entry_IsDir :: bool
  entry_path :: string

record FileInfo =
  info_Size :: int
  info_ModTime :: nat

definition is_dir :: "node \<Rightarrow> bool" where
  "is_dir n = (case n of Dir es \<Rightarrow> True | File b t \<Rightarrow> False)"

definition dir_entries :: "string \<Rightarrow> (string \<times> node) list \<Rightarrow> DirEntry list" where
  "dir_entries p es =
     map (\<lambda>(k, n). \<lparr>entry_Name = k, entry_IsDir = is_dir n, entry_path = p @ ''/'' @ k\<rparr>) es"

definition os_ReadDir :: "string \<Rightarrow> filesystem \<Rightarrow> (error + DirEntry list) \<times> filesystem" where
  "os_ReadDir p w =
     (let (f, w1) = enter (Call_ReadDir p) w in
      case fault_errno f of
        Some e \<Rightarrow> (Inl (PathError ''open'' p e), w1)
      | None \<Rightarrow>
          (case locate w1 p of
             Inl e \<Rightarrow> (Inl (PathError ''open'' p e), w1)
           | Inr (File b t) \<Rightarrow> (Inl (PathError ''open'' p ENOTDIR), w1)
           | Inr (Dir es) \<Rightarrow> (Inr (sort_key entry_Name (dir_entries p es)), w1)))"

definition DirEntry_Info :: "DirEntry \<Rightarrow> filesystem \<Rightarrow> (error + FileInfo) \<times> filesystem" where
  "DirEntry_Info d w =
     (let (f, w1) = enter (Call_Lstat (entry_path d)) w in
      case fault_errno f of
        Some e \<Rightarrow> (Inl (PathError ''lstat'' (entry_path d) e), w1)
      | None \<Rightarrow>
          (case locate w1 (entry_path d) of
             Inl e \<Rightarrow> (Inl (PathError ''lstat'' (entry_path d) e), w1)
           | Inr (File b t) \<Rightarrow> (Inr \<lparr>info_Size = int (length b), info_ModTime = t\<rparr>, w1)
           | Inr (Dir es) \<Rightarrow> (Inr \<lparr>info_Size = 0, info_ModTime = 0\<rparr>, w1)))"

text \<open>
  \<open>os.Rename\<close> looks at the new name before it calls the system: when the new name is an
  existing directory, it fails with the error of the lookup of the old name if that fails,
  and otherwise with \<open>EEXIST\<close>, unless the two names are different names of one and the
  same directory.
\<close>

definition rename_refused :: "filesystem \<Rightarrow> string \<Rightarrow> string \<Rightarrow> errno option" where
  "rename_refused w old new =
     (case locate w new of
        Inr (Dir es) \<Rightarrow>
          (case locate w old of
             Inl e \<Rightarrow> Some e
           | Inr n \<Rightarrow>
               if new = old \<or> resolve (cwd w) old \<noteq> resolve (cwd w) new then Some EEXIST
               else None)
      | _ \<Rightarrow> None)"

definition os_Rename :: "string \<Rightarrow> string \<Rightarrow> filesystem \<Rightarrow> error option \<times> filesystem" where
  "os_Rename old new w =
     (let (f, w1) = enter (Call_Rename old new) w in
      case fault_errno f of
        Some e \<Rightarrow> (Some (LinkError ''rename'' old new e), w1)
      | None \<Rightarrow>
          (case rename_refused w1 old new of
             Some e \<Rightarrow> (Some (LinkError ''rename'' old new e), w1)
           | None \<Rightarrow>
               (if old = [] \<or> new = [] then (Some (LinkError ''rename'' old new ENOENT), w1)
                else (case rename_tree (resolve (cwd w1) old) (resolve (cwd w1) new) (tree w1) of
                        Inl e \<Rightarrow> (Some (LinkError ''rename'' old new e), w1)
                      | Inr t \<Rightarrow> (None, w1\<lparr>tree := t\<rparr>)))))"

text \<open>
  \<open>os.Remove\<close> tries \<open>unlink\<close> and then \<open>rmdir\<close>, and returns the error of \<open>rmdir\<close>
  unless that is \<open>ENOTDIR\<close>. Neither call removes a path whose last element is a dot or
  two dots: for a directory \<open>rmdir\<close> answers \<open>EINVAL\<close> to the first and \<open>ENOTEMPTY\<close> to the
  second, whatever the directory holds. \<open>ends_with_dot\<close> is \<open>endsWithDot\<close> of package
  \<open>os\<close>. The root of the tree is busy.
\<close>

definition ends_with_dot :: "string \<Rightarrow> bool" where
  "ends_with_dot p = (p = ''.'' \<or> (length p \<ge> 2 \<and> last p = CHR ''.'' \<and> last (butlast p) = CHR ''/''))"

definition ends_with_dotdot :: "string \<Rightarrow> bool" where
  "ends_with_dotdot p = (p = ''..'' \<or> (length p \<ge> 3 \<and> drop (length p - 3) p = ''/..''))"

definition os_Remove :: "string \<Rightarrow> filesystem \<Rightarrow> error option \<times> filesystem" where
  "os_Remove p w =
     (let (f, w1) = enter (Call_Remove p) w in
      case fault_errno f of
        Some e \<Rightarrow> (Some (PathError ''remove'' p e), w1)
      | None \<Rightarrow>
          (if ends_with_dot p \<or> ends_with_dotdot p then
             (case locate w1 p of
                Inl e \<Rightarrow> (Some (PathError ''remove'' p e), w1)
              | Inr (File b t) \<Rightarrow> (Some (PathError ''remove'' p ENOTDIR), w1)
              | Inr (Dir es) \<Rightarrow>
                  (Some (PathError ''remove'' p (if ends_with_dot p then EINVAL else ENOTEMPTY)), w1))
           else
             (case set_tree w1 p (alter remove_entry) of
                (Some e, w2) \<Rightarrow> (Some (PathError ''remove'' p e), w2)
              | (None, w2) \<Rightarrow> (None, w2))))"

text \<open>
  \<open>os.RemoveAll\<close> removes the path and everything below it. It returns no error for the
  empty path, refuses a path that ends in a dot, and returns no error when the removal
  fails with an error that \<open>os.IsNotExist\<close> recognises: a component of the path is
  missing. Otherwise it opens the parent directory that \<open>splitPath\<close> gives and removes the
  base name from there; the path of an error from there is the two parts joined again.
  Below a regular file this fails with \<open>ENOTDIR\<close>: at the opening of the parent, or, when
  the parent is the file itself, at the removal. A directory is emptied before it is
  removed, so where the removal of the directory itself is refused, for the root of the
  tree and for a path that ends in two dots, the directory has lost what it held.
\<close>

fun strip_slashes :: "string \<Rightarrow> string" where
  "strip_slashes (a # b # cs) =
     (if a = CHR ''/'' then strip_slashes (b # cs) else a # b # cs)"
| "strip_slashes cs = cs"

fun strip_leading :: "string \<Rightarrow> string" where
  "strip_leading (a # b # cs) =
     (if a = CHR ''/'' \<and> b = CHR ''/'' then strip_leading (b # cs) else a # b # cs)"
| "strip_leading cs = cs"

definition splitPath :: "string \<Rightarrow> string \<times> string" where
  "splitPath p =
     (let s = rev (strip_slashes (rev (strip_leading p)));
          d = rev (dropWhile (\<lambda>c. c \<noteq> CHR ''/'') (rev (butlast s)))
      in if d = [] then (''.'', s)
         else (if length d = 1 then ''/'' else butlast d, drop (length d) s))"

fun empty_dir :: "string list \<Rightarrow> node \<Rightarrow> node" where
  "empty_dir p (File b t) = File b t"
| "empty_dir [] (Dir es) = Dir []"
| "empty_dir (c # cs) (Dir es) =
     (case map_of es c of
        None \<Rightarrow> Dir es
      | Some m \<Rightarrow> Dir (AList.update c (empty_dir cs m) es))"

definition os_RemoveAll :: "string \<Rightarrow> filesystem \<Rightarrow> error option \<times> filesystem" where
  "os_RemoveAll p w =
     (let (f, w1) = enter (Call_RemoveAll p) w;
          (parent, base) = splitPath p in
      case fault_errno f of
        Some e \<Rightarrow> (Some (PathError ''unlinkat'' p e), w1)
      | None \<Rightarrow>
          (if p = [] then (None, w1)
           else if ends_with_dot p then (Some (PathError ''RemoveAll'' p EINVAL), w1)
           else (case locate w1 p of
                   Inl e \<Rightarrow>
                     (if e = ENOENT then (None, w1)
                      else (case locate w1 parent of
                              Inl e' \<Rightarrow> (Some (PathError ''open'' parent e'), w1)
                            | Inr n \<Rightarrow> (Some (PathError ''unlinkat'' (parent @ ''/'' @ base) e), w1)))
                 | Inr n \<Rightarrow>
                     (if ends_with_dotdot p \<or> resolve (cwd w1) p = [] then
                        (Some (PathError ''unlinkat'' (parent @ ''/'' @ base)
                                 (if ends_with_dotdot p then ENOTEMPTY else EBUSY)),
                         w1\<lparr>tree := empty_dir (resolve (cwd w1) p) (tree w1)\<rparr>)
                      else
                        (case set_tree w1 p (alter (\<lambda>_. Inr None)) of
                           (Some e, w2) \<Rightarrow> (Some (PathError ''unlinkat'' p e), w2)
                         | (None, w2) \<Rightarrow> (None, w2))))))"

section \<open>The local backend\<close>

record LocalStorage =
  rootDir :: string
  name :: string

definition NewLocalStorage :: "string \<Rightarrow> string \<Rightarrow> LocalStorage" where
  "NewLocalStorage root n = \<lparr>rootDir = root, name = n\<rparr>"

definition LocalStorage_Name :: "LocalStorage \<Rightarrow> string" where
  "LocalStorage_Name s = LocalStorage.name s"

definition LocalStorage_PathJoin :: "LocalStorage \<Rightarrow> string list \<Rightarrow> string" where
  "LocalStorage_PathJoin s elem = Join elem"

definition checkRootDir :: "LocalStorage \<Rightarrow> error option" where
  "checkRootDir s = (if rootDir s = [] then Some (Errorf ''root dir required'') else None)"

definition LocalStorage_Get :: "LocalStorage \<Rightarrow> string \<Rightarrow> filesystem \<Rightarrow> (error + os_File) \<times> filesystem" where
  "LocalStorage_Get s nm w =
     (case checkRootDir s of
        Some err \<Rightarrow> (Inl (Errorf_w ''invalid root path'' [] err), w)
      | None \<Rightarrow>
          if nm = [] then (Inl (Errorf ''name required''), w)
          else
            let fullPath = LocalStorage_PathJoin s [rootDir s, nm] in
            (case os_Open fullPath w of
               (Inl err, w1) \<Rightarrow> (Inl (Errorf_w ''failed to open file %q'' [fullPath] err), w1)
             | (Inr f, w1) \<Rightarrow> (Inr f, w1)))"

text \<open>
  \<open>Put\<close> returns Go's pair of the byte count and the error. The directory mode \<open>0755\<close> is
  493. Closing a local file has no effect in the model, so the deferred \<open>f.Close()\<close> is not
  a step.
\<close>

definition LocalStorage_Put ::
  "LocalStorage \<Rightarrow> string \<Rightarrow> reader \<Rightarrow> PutOptions option \<Rightarrow> filesystem \<Rightarrow> (int \<times> error option) \<times> filesystem" where
  "LocalStorage_Put s nm r opts w =
     (case checkRootDir s of
        Some err \<Rightarrow> ((0, Some (Errorf_w ''invalid root path'' [] err)), w)
      | None \<Rightarrow>
          if nm = [] then ((0, Some (Errorf ''name required'')), w)
          else
            let fullPath = LocalStorage_PathJoin s [rootDir s, nm];
                dir = Dir_path fullPath in
            (case os_MkdirAll dir 493 w of
               (Some err, w1) \<Rightarrow> ((0, Some (Errorf_w ''failed to create directory %q'' [dir] err)), w1)
             | (None, w1) \<Rightarrow>
                 (case os_Create fullPath w1 of
                    (Inl err, w2) \<Rightarrow> ((0, Some (Errorf_w ''failed to create file %q'' [fullPath] err)), w2)
                  | (Inr f, w2) \<Rightarrow>
                      (case io_Copy f r w2 of
                         ((sz, Some err), w3) \<Rightarrow>
                           ((0, Some (Errorf_w ''failed to write file %q'' [fullPath] err)), w3)
                       | ((sz, None), w3) \<Rightarrow> ((sz, None), w3)))))"

fun LocalStorage_List_loop ::
  "LocalStorage \<Rightarrow> string \<Rightarrow> DirEntry list \<Rightarrow> ObjectInfo list \<Rightarrow> filesystem \<Rightarrow> ObjectInfo list \<times> filesystem" where
  "LocalStorage_List_loop s prefix [] objects w = (objects, w)"
| "LocalStorage_List_loop s prefix (file # files) objects w =
     (if entry_IsDir file then LocalStorage_List_loop s prefix files objects w
      else
        (case DirEntry_Info file w of
           (Inl err, w1) \<Rightarrow> LocalStorage_List_loop s prefix files objects w1
         | (Inr info, w1) \<Rightarrow>
             LocalStorage_List_loop s prefix files
               (objects @
                [\<lparr>Name = ToSlash (LocalStorage_PathJoin s [prefix, entry_Name file]),
                  Size = info_Size info,
                  UpdatedAt = info_ModTime info,
                  Info_Metadata = []\<rparr>]) w1))"

definition LocalStorage_List ::
  "LocalStorage \<Rightarrow> string \<Rightarrow> filesystem \<Rightarrow> (error + ObjectInfo list) \<times> filesystem" where
  "LocalStorage_List s prefix w =
     (case checkRootDir s of
        Some err \<Rightarrow> (Inl (Errorf_w ''invalid root path'' [] err), w)
      | None \<Rightarrow>
          if prefix = [] then (Inl (Errorf ''prefix required''), w)
          else
            let fullPath = LocalStorage_PathJoin s [rootDir s, prefix] in
            (case os_ReadDir fullPath w of
               (Inl err, w1) \<Rightarrow>
                 if os_IsNotExist err then (Inr [], w1)
                 else (Inl (Errorf_w ''failed to list files %q'' [fullPath] err), w1)
             | (Inr files, w1) \<Rightarrow>
                 (case LocalStorage_List_loop s prefix files [] w1 of
                    (objects, w2) \<Rightarrow> (Inr objects, w2))))"

definition LocalStorage_Copy ::
  "LocalStorage \<Rightarrow> string \<Rightarrow> string \<Rightarrow> filesystem \<Rightarrow> error option \<times> filesystem" where
  "LocalStorage_Copy s src dst w =
     (case checkRootDir s of
        Some err \<Rightarrow> (Some (Errorf_w ''invalid storage client'' [] err), w)
      | None \<Rightarrow>
          if src = [] then (Some (Errorf ''src required''), w)
          else if dst = [] then (Some (Errorf ''dst required''), w)
          else
            let srcPath = Join [rootDir s, src];
                dstPath = Join [rootDir s, dst] in
            (case os_Open srcPath w of
               (Inl err, w1) \<Rightarrow> (Some (Errorf_w ''failed to open src file %q'' [srcPath] err), w1)
             | (Inr srcFile, w1) \<Rightarrow>
                 (case os_MkdirAll (Dir_path dstPath) 493 w1 of
                    (Some err, w2) \<Rightarrow>
                      (Some (Errorf_w ''failed to create dst directory %q'' [Dir_path dstPath] err), w2)
                  | (None, w2) \<Rightarrow>
                      (case os_Create dstPath w2 of
                         (Inl err, w3) \<Rightarrow>
                           (Some (Errorf_w ''failed to create dst file %q'' [dstPath] err), w3)
                       | (Inr dstFile, w3) \<Rightarrow>
                           (case io_Copy dstFile (file_reader srcFile w3) w3 of
                              ((n, Some err), w4) \<Rightarrow>
                                (Some (Errorf_w ''failed to copy file %q to %q'' [srcPath, dstPath] err), w4)
                            | ((n, None), w4) \<Rightarrow> (None, w4))))))"

definition LocalStorage_Delete ::
  "LocalStorage \<Rightarrow> string \<Rightarrow> filesystem \<Rightarrow> error option \<times> filesystem" where
  "LocalStorage_Delete s nm w =
     (case checkRootDir s of
        Some err \<Rightarrow> (Some (Errorf_w ''invalid root path'' [] err), w)
      | None \<Rightarrow>
          if nm = [] then (Some (Errorf ''name required''), w)
          else
            let fullPath = LocalStorage_PathJoin s [rootDir s, nm] in
            (case os_Remove fullPath w of
               (Some err, w1) \<Rightarrow> (Some (Errorf_w ''failed to delete file %q'' [fullPath] err), w1)
             | (None, w1) \<Rightarrow> (None, w1)))"

definition LocalStorage_Move ::
  "LocalStorage \<Rightarrow> string \<Rightarrow> string \<Rightarrow> filesystem \<Rightarrow> error option \<times> filesystem" where
  "LocalStorage_Move s src dst w =
     (case checkRootDir s of
        Some err \<Rightarrow> (Some (Errorf_w ''invalid storage client'' [] err), w)
      | None \<Rightarrow>
          if src = [] then (Some (Errorf ''src required''), w)
          else if dst = [] then (Some (Errorf ''dst required''), w)
          else
            let srcPath = Join [rootDir s, src];
                dstPath = Join [rootDir s, dst] in
            (case os_MkdirAll (Dir_path dstPath) 493 w of
               (Some err, w1) \<Rightarrow>
                 (Some (Errorf_w ''failed to create dst directory %q'' [Dir_path dstPath] err), w1)
             | (None, w1) \<Rightarrow>
                 (case os_Rename srcPath dstPath w1 of
                    (None, w2) \<Rightarrow> (None, w2)
                  | (Some err, w2) \<Rightarrow>
                      (case LocalStorage_Copy s src dst w2 of
                         (Some err, w3) \<Rightarrow>
                           (Some (Errorf_w ''failed to copy file %q to %q'' [src, dst] err), w3)
                       | (None, w3) \<Rightarrow>
                           (case LocalStorage_Delete s src w3 of
                              (Some err, w4) \<Rightarrow>
                                (Some (Errorf_w ''failed to delete file %q'' [src] err), w4)
                            | (None, w4) \<Rightarrow> (None, w4))))))"

definition LocalStorage_DeleteAll ::
  "LocalStorage \<Rightarrow> string \<Rightarrow> filesystem \<Rightarrow> error option \<times> filesystem" where
  "LocalStorage_DeleteAll s prefix w =
     (case checkRootDir s of
        Some err \<Rightarrow> (Some (Errorf_w ''invalid root path'' [] err), w)
      | None \<Rightarrow>
          if prefix = [] then (Some (Errorf ''prefix required''), w)
          else
            let fullPath = LocalStorage_PathJoin s [rootDir s, prefix] in
            (case os_RemoveAll fullPath w of
               (Some err, w1) \<Rightarrow> (Some (Errorf_w ''failed to delete path %q'' [fullPath] err), w1)
             | (None, w1) \<Rightarrow> (None, w1)))"

section \<open>The cloud object store\<close>

text \<open>
  A bucket holds objects under their full names. The state is the buckets, a clock, the
  calls made through the client so far, and the script of injected failures. What the
  client does is taken from its documentation: a reader is opened on an existing object; a
  writer buffers what is written to it and the object exists only once \<open>Close\<close> has
  returned no error; a listing yields, in the order of the names, the attributes of every
  object whose name starts with the prefix, \<open>Name\<close> being the full object name; a copy
  and a delete need the object.
\<close>

record gcs_object =
  obj_data :: bytes
  obj_ContentType :: string
  obj_Metadata :: metadata
  obj_Updated :: nat

record ObjectAttrs =
  attrs_Name :: string
  attrs_Size :: int
  attrs_Updated :: nat
  attrs_Metadata :: metadata

datatype gcs_call =
    Call_NewReader string string
  | Call_Write_Object string string
  | Call_Close_Writer string string
  | Call_Objects string string
  | Call_CopierRun string string string
  | Call_Delete_Object string string

record cloud =
  buckets :: "(string \<times> (string \<times> gcs_object) list) list"
  gcs_clock :: nat
  gcs_calls :: "gcs_call list"
  gcs_faults :: "error fault list"

datatype storage_Client = Client

record storage_Writer =
  w_bucket :: string
  w_object :: string
  w_ContentType :: string
  w_Metadata :: metadata
  w_buf :: bytes
  w_err :: "error option"

definition gcs_enter :: "gcs_call \<Rightarrow> cloud \<Rightarrow> error fault \<times> cloud" where
  "gcs_enter c g =
     (case gcs_faults g of
        [] \<Rightarrow> (NoFault, g\<lparr>gcs_calls := gcs_calls g @ [c]\<rparr>)
      | f # fs \<Rightarrow> (f, g\<lparr>gcs_calls := gcs_calls g @ [c], gcs_faults := fs\<rparr>))"

definition NewReader :: "string \<Rightarrow> string \<Rightarrow> cloud \<Rightarrow> (error + reader) \<times> cloud" where
  "NewReader b nm g =
     (let (f, g1) = gcs_enter (Call_NewReader b nm) g in
      case fault_errno f of
        Some e \<Rightarrow> (Inl e, g1)
      | None \<Rightarrow>
          (case map_of (buckets g1) b of
             None \<Rightarrow> (Inl ErrBucketNotExist, g1)
           | Some objs \<Rightarrow>
               (case map_of objs nm of
                  None \<Rightarrow> (Inl ErrObjectNotExist, g1)
                | Some obj \<Rightarrow> (Inr (Reader (obj_data obj) None), g1))))"

definition NewWriter :: "string \<Rightarrow> string \<Rightarrow> storage_Writer" where
  "NewWriter b nm =
     \<lparr>w_bucket = b, w_object = nm, w_ContentType = [], w_Metadata = [], w_buf = [], w_err = None\<rparr>"

text \<open>
  \<open>io.Copy(w, r)\<close> into a writer: the bytes go into the upload; nothing is stored yet. A
  failed write stays with the writer, whose \<open>Close\<close> then fails too.
\<close>

definition gcs_io_Copy ::
  "storage_Writer \<Rightarrow> reader \<Rightarrow> cloud \<Rightarrow> (int \<times> error option) \<times> storage_Writer \<times> cloud" where
  "gcs_io_Copy wr r g =
     (case r of Reader bs rerr \<Rightarrow>
        (let (f, g1) = gcs_enter (Call_Write_Object (w_bucket wr) (w_object wr)) g in
         case fault_limit f of
           None \<Rightarrow> ((int (length bs), rerr), wr\<lparr>w_buf := bs\<rparr>, g1)
         | Some (k, e) \<Rightarrow>
             (if length bs \<le> k then ((int (length bs), rerr), wr\<lparr>w_buf := bs\<rparr>, g1)
              else ((int k, Some e), wr\<lparr>w_buf := take k bs, w_err := Some e\<rparr>, g1))))"

definition Writer_Close :: "storage_Writer \<Rightarrow> cloud \<Rightarrow> error option \<times> cloud" where
  "Writer_Close wr g =
     (let (f, g1) = gcs_enter (Call_Close_Writer (w_bucket wr) (w_object wr)) g in
      case w_err wr of
        Some e \<Rightarrow> (Some e, g1)
      | None \<Rightarrow>
          (case fault_errno f of
             Some e \<Rightarrow> (Some e, g1)
           | None \<Rightarrow>
               (case map_of (buckets g1) (w_bucket wr) of
                  None \<Rightarrow> (Some ErrBucketNotExist, g1)
                | Some objs \<Rightarrow>
                    (None,
                     g1\<lparr>buckets :=
                          AList.update (w_bucket wr)
                            (AList.update (w_object wr)
                               \<lparr>obj_data = w_buf wr,
                                obj_ContentType = w_ContentType wr,
                                obj_Metadata = w_Metadata wr,
                                obj_Updated = gcs_clock g1\<rparr> objs)
                            (buckets g1)\<rparr>))))"

text \<open>
  An object iterator: the attributes that \<open>Next\<close> returns one after the other, and then
  \<open>iterator.Done\<close> (\<open>None\<close>) or an error.
\<close>

type_synonym object_iterator = "ObjectAttrs list \<times> error option"

definition has_prefix :: "'a list \<Rightarrow> 'a list \<Rightarrow> bool" where
  "has_prefix pre s = (take (length pre) s = pre)"

definition attrs_of :: "string \<times> gcs_object \<Rightarrow> ObjectAttrs" where
  "attrs_of kv =
     \<lparr>attrs_Name = fst kv,
      attrs_Size = int (length (obj_data (snd kv))),
      attrs_Updated = obj_Updated (snd kv),
      attrs_Metadata = obj_Metadata (snd kv)\<rparr>"

definition Objects :: "string \<Rightarrow> string \<Rightarrow> cloud \<Rightarrow> object_iterator \<times> cloud" where
  "Objects b prefix g =
     (let (f, g1) = gcs_enter (Call_Objects b prefix) g in
      case map_of (buckets g1) b of
        None \<Rightarrow>
          (case fault_errno f of
             Some e \<Rightarrow> (([], Some e), g1)
           | None \<Rightarrow> (([], Some ErrBucketNotExist), g1))
      | Some objs \<Rightarrow>
          (let found = sort_key attrs_Name (map attrs_of (filter (\<lambda>kv. has_prefix prefix (fst kv)) objs)) in
           case fault_limit f of
             None \<Rightarrow> ((found, None), g1)
           | Some (k, e) \<Rightarrow> ((take k found, Some e), g1)))"

definition CopierFrom_Run :: "string \<Rightarrow> string \<Rightarrow> string \<Rightarrow> cloud \<Rightarrow> error option \<times> cloud" where
  "CopierFrom_Run b src dst g =
     (let (f, g1) = gcs_enter (Call_CopierRun b src dst) g in
      case fault_errno f of
        Some e \<Rightarrow> (Some e, g1)
      | None \<Rightarrow>
          (case map_of (buckets g1) b of
             None \<Rightarrow> (Some ErrBucketNotExist, g1)
           | Some objs \<Rightarrow>
               (case map_of objs src of
                  None \<Rightarrow> (Some ErrObjectNotExist, g1)
                | Some obj \<Rightarrow>
                    (None,
                     g1\<lparr>buckets :=
                          AList.update b
                            (AList.update dst (obj\<lparr>obj_Updated := gcs_clock g1\<rparr>) objs)
                            (buckets g1)\<rparr>))))"

definition Object_Delete :: "string \<Rightarrow> string \<Rightarrow> cloud \<Rightarrow> error option \<times> cloud" where
  "Object_Delete b nm g =
     (let (f, g1) = gcs_enter (Call_Delete_Object b nm) g in
      case fault_errno f of
        Some e \<Rightarrow> (Some e, g1)
      | None \<Rightarrow>
          (case map_of (buckets g1) b of
             None \<Rightarrow> (Some ErrBucketNotExist, g1)
           | Some objs \<Rightarrow>
               (case map_of objs nm of
                  None \<Rightarrow> (Some ErrObjectNotExist, g1)
                | Some obj \<Rightarrow>
                    (None, g1\<lparr>buckets := AList.update b (AList.delete nm objs) (buckets g1)\<rparr>))))"

section \<open>The cloud backend\<close>

record GCSStorage =
  client :: "storage_Client option"
  bucketName :: string
  name :: string

definition NewGCSStorage :: "storage_Client option \<Rightarrow> string \<Rightarrow> string \<Rightarrow> GCSStorage" where
  "NewGCSStorage c b n = \<lparr>client = c, bucketName = b, name = n\<rparr>"

definition GCSStorage_Name :: "GCSStorage \<Rightarrow> string" where
  "GCSStorage_Name s = GCSStorage.name s"

definition GCSStorage_PathJoin :: "GCSStorage \<Rightarrow> string list \<Rightarrow> string" where
  "GCSStorage_PathJoin s elem = Join elem"

definition checkClientAndBucket :: "GCSStorage \<Rightarrow> error option" where
  "checkClientAndBucket s =
     (if client s = None then Some (Errorf ''storage client required'')
      else if bucketName s = [] then Some (Errorf ''bucketName required'')
      else None)"

definition GCSStorage_Get :: "GCSStorage \<Rightarrow> string \<Rightarrow> cloud \<Rightarrow> (error + reader) \<times> cloud" where
  "GCSStorage_Get s nm g =
     (case checkClientAndBucket s of
        Some err \<Rightarrow> (Inl (Errorf_w ''storage client'' [] err), g)
      | None \<Rightarrow>
          if nm = [] then (Inl (Errorf ''name required''), g)
          else
            (case NewReader (bucketName s) nm g of
               (Inl err, g1) \<Rightarrow>
                 let fullPath = GCSStorage_PathJoin s [bucketName s, nm] in
                 (Inl (Errorf_w ''failed to open file %q'' [fullPath] err), g1)
             | (Inr r, g1) \<Rightarrow> (Inr r, g1)))"

text \<open>
  \<open>Put\<close> defers \<open>w.Close()\<close>: it runs after the result has been fixed, on every path past
  the creation of the writer, and what it returns is dropped.
\<close>

definition apply_opts :: "PutOptions option \<Rightarrow> storage_Writer \<Rightarrow> storage_Writer" where
  "apply_opts opts wr =
     (case opts of
        None \<Rightarrow> wr
      | Some po \<Rightarrow>
          (let wr1 = (if ContentType po \<noteq> [] then wr\<lparr>w_ContentType := ContentType po\<rparr> else wr)
           in if length (Metadata po) > 0 then wr1\<lparr>w_Metadata := Metadata po\<rparr> else wr1))"

definition GCSStorage_Put ::
  "GCSStorage \<Rightarrow> string \<Rightarrow> reader \<Rightarrow> PutOptions option \<Rightarrow> cloud \<Rightarrow> (int \<times> error option) \<times> cloud" where
  "GCSStorage_Put s nm r opts g =
     (case checkClientAndBucket s of
        Some err \<Rightarrow> ((0, Some (Errorf_w ''invalid storage client'' [] err)), g)
      | None \<Rightarrow>
          if nm = [] then ((0, Some (Errorf ''name required'')), g)
          else
            let wr = apply_opts opts (NewWriter (bucketName s) nm) in
            (case gcs_io_Copy wr r g of
               ((sz, Some err), wr1, g1) \<Rightarrow>
                 let fullPath = GCSStorage_PathJoin s [bucketName s, nm] in
                 ((0, Some (Errorf_w ''failed to write file %q'' [fullPath] err)),
                  snd (Writer_Close wr1 g1))
             | ((sz, None), wr1, g1) \<Rightarrow> ((sz, None), snd (Writer_Close wr1 g1))))"

fun GCSStorage_List_loop ::
  "GCSStorage \<Rightarrow> string \<Rightarrow> ObjectAttrs list \<Rightarrow> error option \<Rightarrow> ObjectInfo list \<Rightarrow> error + ObjectInfo list" where
  "GCSStorage_List_loop s prefix [] None objects = Inr objects"
| "GCSStorage_List_loop s prefix [] (Some err) objects =
     (let fullPath = GCSStorage_PathJoin s [bucketName s, prefix] in
      Inl (Errorf_w ''failed to list %q'' [fullPath] err))"
| "GCSStorage_List_loop s prefix (attrs # rest) fin objects =
     GCSStorage_List_loop s prefix rest fin
       (objects @
        [\<lparr>Name = GCSStorage_PathJoin s [prefix, attrs_Name attrs],
          Size = attrs_Size attrs,
          UpdatedAt = attrs_Updated attrs,
          Info_Metadata = attrs_Metadata attrs\<rparr>])"

definition GCSStorage_List ::
  "GCSStorage \<Rightarrow> string \<Rightarrow> cloud \<Rightarrow> (error + ObjectInfo list) \<times> cloud" where
  "GCSStorage_List s prefix g =
     (case checkClientAndBucket s of
        Some err \<Rightarrow> (Inl (Errorf_w ''invalid storage client'' [] err), g)
      | None \<Rightarrow>
          if prefix = [] then (Inl (Errorf ''prefix required''), g)
          else
            (case Objects (bucketName s) prefix g of
               ((found, fin), g1) \<Rightarrow> (GCSStorage_List_loop s prefix found fin [], g1)))"

definition GCSStorage_Copy ::
  "GCSStorage \<Rightarrow> string \<Rightarrow> string \<Rightarrow> cloud \<Rightarrow> error option \<times> cloud" where
  "GCSStorage_Copy s src dst g =
     (case checkClientAndBucket s of
        Some err \<Rightarrow> (Some (Errorf_w ''invalid storage client'' [] err), g)
      | None \<Rightarrow>
          if src = [] then (Some (Errorf ''src required''), g)
          else if dst = [] then (Some (Errorf ''dst required''), g)
          else
            (case CopierFrom_Run (bucketName s) src dst g of
               (Some err, g1) \<Rightarrow>
                 (Some (Errorf_w ''failed to copy object from %q to %q'' [src, dst] err), g1)
             | (None, g1) \<Rightarrow> (None, g1)))"

definition GCSStorage_Delete ::
  "GCSStorage \<Rightarrow> string \<Rightarrow> cloud \<Rightarrow> error option \<times> cloud" where
  "GCSStorage_Delete s nm g =
     (case checkClientAndBucket s of
        Some err \<Rightarrow> (Some (Errorf_w ''invalid storage client'' [] err), g)
      | None \<Rightarrow>
          if nm = [] then (Some (Errorf ''name required''), g)
          else
            (case Object_Delete (bucketName s) nm g of
               (Some err, g1) \<Rightarrow>
                 let fullPath = GCSStorage_PathJoin s [bucketName s, nm] in
                 (Some (Errorf_w ''failed to delete file %q'' [fullPath] err), g1)
             | (None, g1) \<Rightarrow> (None, g1)))"

definition GCSStorage_Move ::
  "GCSStorage \<Rightarrow> string \<Rightarrow> string \<Rightarrow> cloud \<Rightarrow> error option \<times> cloud" where
  "GCSStorage_Move s src dst g =
     (case checkClientAndBucket s of
        Some err \<Rightarrow> (Some (Errorf_w ''invalid storage client'' [] err), g)
      | None \<Rightarrow>
          if src = [] then (Some (Errorf ''src required''), g)
          else if dst = [] then (Some (Errorf ''dst required''), g)
          else
            (case GCSStorage_Copy s src dst g of
               (Some err, g1) \<Rightarrow>
                 (Some (Errorf_w ''failed to copy file %q to %q'' [src, dst] err), g1)
             | (None, g1) \<Rightarrow>
                 (case GCSStorage_Delete s src g1 of
                    (Some err, g2) \<Rightarrow> (Some (Errorf_w ''failed to delete file %q'' [src] err), g2)
                  | (None, g2) \<Rightarrow> (None, g2))))"

fun GCSStorage_DeleteAll_loop ::
  "GCSStorage \<Rightarrow> string \<Rightarrow> ObjectAttrs list \<Rightarrow> error option \<Rightarrow> cloud \<Rightarrow> error option \<times> cloud" where
  "GCSStorage_DeleteAll_loop s prefix [] None g = (None, g)"
| "GCSStorage_DeleteAll_loop s prefix [] (Some err) g =
     (let fullPath = GCSStorage_PathJoin s [bucketName s, prefix] in
      (Some (Errorf_w ''failed to list %q'' [fullPath] err), g))"
| "GCSStorage_DeleteAll_loop s prefix (attrs # rest) fin g =
     (case Object_Delete (bucketName s) (attrs_Name attrs) g of
        (Some err, g1) \<Rightarrow> (Some (Errorf_w ''failed to delete %s'' [attrs_Name attrs] err), g1)
      | (None, g1) \<Rightarrow> GCSStorage_DeleteAll_loop s prefix rest fin g1)"

definition GCSStorage_DeleteAll ::
  "GCSStorage \<Rightarrow> string \<Rightarrow> cloud \<Rightarrow> error option \<times> cloud" where
  "GCSStorage_DeleteAll s prefix g =
     (case checkClientAndBucket s of
        Some err \<Rightarrow> (Some (Errorf_w ''invalid storage client'' [] err), g)
      | None \<Rightarrow>
          if prefix = [] then (Some (Errorf ''prefix required''), g)
          else
            (case Objects (bucketName s) prefix g of
               ((found, fin), g1) \<Rightarrow> GCSStorage_DeleteAll_loop s prefix found fin g1))"

section \<open>What the statements speak of\<close>

text \<open>
  The specification sorts errors into classes. The two that the argument checks produce
  are recognised by the values the source builds: an empty argument gives one of four
  messages, a missing backend target gives a wrapped configuration message.
\<close>

definition InvalidArgument :: "error \<Rightarrow> bool" where
  "InvalidArgument e =
     (e = Errorf ''name required'' \<or> e = Errorf ''prefix required'' \<or>
      e = Errorf ''src required'' \<or> e = Errorf ''dst required'')"

fun Configuration :: "error \<Rightarrow> bool" where
  "Configuration (Errorf_w m args e) =
     (e = Errorf ''root dir required'' \<or> e = Errorf ''storage client required'' \<or>
      e = Errorf ''bucketName required'')"
| "Configuration _ = False"

text \<open>The environment injects nothing into the next backend call.\<close>

definition quiet :: "'e fault list \<Rightarrow> bool" where
  "quiet fs = (case fs of [] \<Rightarrow> True | f # _ \<Rightarrow> f = NoFault)"

text \<open>The failure that the script holds for the \<open>i\<close>-th backend call from now.\<close>

definition nth_fault :: "'e fault list \<Rightarrow> nat \<Rightarrow> 'e fault" where
  "nth_fault fs i = (if i < length fs then fs ! i else NoFault)"

text \<open>The node a path leads to, if there is one.\<close>

definition node_at :: "node \<Rightarrow> string list \<Rightarrow> node option" where
  "node_at t p = (case walk t p of Inl e \<Rightarrow> None | Inr n \<Rightarrow> Some n)"

text \<open>What \<open>os.Remove\<close> removes: a file, or a directory with no entries.\<close>

definition removable :: "node \<Rightarrow> bool" where
  "removable n = (case n of File b t \<Rightarrow> True | Dir es \<Rightarrow> es = [])"

text \<open>
  What the specification says of the local \<open>List\<close>, entry by entry. \<open>stat_entry\<close> is the
  metadata of a directory entry as the tree holds it. \<open>listed_entry\<close> is the descriptor
  that the listing has for an entry of the prefix directory: none for a directory, none
  when the read of the metadata fails (because the environment makes it fail, \<open>F d\<close>, or
  because the entry is not found), and otherwise the name joined to the prefix, with the
  size and the modification time of the file and an empty metadata map.
\<close>

definition stat_entry :: "filesystem \<Rightarrow> DirEntry \<Rightarrow> FileInfo option" where
  "stat_entry w d =
     (case locate w (entry_path d) of
        Inl e \<Rightarrow> None
      | Inr (File b t) \<Rightarrow> Some \<lparr>info_Size = int (length b), info_ModTime = t\<rparr>
      | Inr (Dir es) \<Rightarrow> Some \<lparr>info_Size = 0, info_ModTime = 0\<rparr>)"

definition listed_entry ::
  "string \<Rightarrow> filesystem \<Rightarrow> (DirEntry \<Rightarrow> errno fault) \<Rightarrow> DirEntry \<Rightarrow> ObjectInfo option" where
  "listed_entry prefix w F d =
     (if entry_IsDir d then None
      else if F d \<noteq> NoFault then None
      else (case stat_entry w d of
              None \<Rightarrow> None
            | Some info \<Rightarrow>
                Some \<lparr>Name = Join [prefix, entry_Name d], Size = info_Size info,
                      UpdatedAt = info_ModTime info, Info_Metadata = []\<rparr>))"

section \<open>Example states\<close>

text \<open>
  The states of the specification's scenario: a file system with the empty directory
  \<open>/data\<close>, and a cloud with one empty bucket.
\<close>

definition example_fs :: filesystem where
  "example_fs = \<lparr>tree = Dir [(''data'', Dir [])], cwd = [], clock = 1, calls = [], faults = []\<rparr>"

definition example_local :: LocalStorage where
  "example_local = NewLocalStorage ''/data'' ''local''"

definition example_cloud :: cloud where
  "example_cloud = \<lparr>buckets = [(''bucket'', [])], gcs_clock = 1, gcs_calls = [], gcs_faults = []\<rparr>"

definition example_gcs :: GCSStorage where
  "example_gcs = NewGCSStorage (Some Client) ''bucket'' ''cloud''"

text \<open>A file system in which \<open>/data/f\<close> is a regular file.\<close>

definition fs_with_file :: filesystem where
  "fs_with_file = example_fs\<lparr>tree := Dir [(''data'', Dir [(''f'', File ''hello'' 1)])]\<rparr>"

text \<open>A file system with an empty directory \<open>/data/d\<close> and a directory \<open>/data/e\<close> that holds a file.\<close>

definition fs_with_dir :: filesystem where
  "fs_with_dir = example_fs\<lparr>tree := Dir [(''data'', Dir [(''d'', Dir []), (''e'', Dir [(''x'', File ''1'' 1)])])]\<rparr>"

text \<open>
  A file system whose working directory \<open>/work\<close> is empty, and a local instance whose root
  directory is the working directory.
\<close>

definition fs_in_work :: filesystem where
  "fs_in_work = example_fs\<lparr>tree := Dir [(''work'', Dir [])], cwd := [''work'']\<rparr>"

definition local_here :: LocalStorage where
  "local_here = NewLocalStorage ''.'' ''local''"

text \<open>A file system that holds the object \<open>a/b.txt\<close> of the scenario under \<open>/data\<close>.\<close>

definition fs_with_object :: filesystem where
  "fs_with_object =
     example_fs\<lparr>tree := Dir [(''data'', Dir [(''a'', Dir [(''b.txt'', File ''hello'' 1)])])]\<rparr>"

text \<open>
  A file system whose directory \<open>/data/a\<close> holds two files and a directory with a file in it.
\<close>

definition fs_with_entries :: filesystem where
  "fs_with_entries =
     example_fs\<lparr>tree :=
       Dir [(''data'',
             Dir [(''a'',
                   Dir [(''b.txt'', File ''hello'' 1),
                        (''sub'', Dir [(''deep.txt'', File ''x'' 1)]),
                        (''c.txt'', File ''other'' 1)])])],
       faults := [NoFault, NoFault, Fail EIO]\<rparr>"

text \<open>A bucket that holds two objects below \<open>a/\<close> and one elsewhere.\<close>

definition cloud_with_objects :: cloud where
  "cloud_with_objects =
     example_cloud\<lparr>buckets :=
       [(''bucket'',
         [(''a/b.txt'', \<lparr>obj_data = ''hello'', obj_ContentType = [], obj_Metadata = [], obj_Updated = 1\<rparr>),
          (''c.txt'', \<lparr>obj_data = ''other'', obj_ContentType = [], obj_Metadata = [], obj_Updated = 1\<rparr>),
          (''a/d.txt'', \<lparr>obj_data = [], obj_ContentType = [], obj_Metadata = [], obj_Updated = 1\<rparr>)])]\<rparr>"

section \<open>Evaluation of the cloud backend\<close>

lemmas gcs_eval =
  example_cloud_def example_gcs_def NewGCSStorage_def checkClientAndBucket_def
  GCSStorage_Put_def GCSStorage_Get_def GCSStorage_List_def GCSStorage_PathJoin_def
  apply_opts_def NewWriter_def gcs_io_Copy_def Writer_Close_def NewReader_def Objects_def
  gcs_enter_def fault_limit_def fault_errno_def attrs_of_def has_prefix_def Let_def

lemmas path_eval =
  Join_def Clean_def join_slash_def rooted_def clean_step_def Dir_path_def ToSlash_def
  resolve_def resolve_step_def

text \<open>
  C3. A \<open>Put\<close> whose upload fails must return an error, and the cloud backend must not
  report success for an upload that was not committed. The cloud \<open>Put\<close> drops what the
  deferred \<open>w.Close()\<close> returns, and the object is stored by \<open>Close\<close>: when the connection
  is lost at \<open>Close\<close>, \<open>Put\<close> of five bytes returns \<open>(5, nil)\<close> and the bucket is as empty as
  before.
\<close>

theorem GCSStorage_Put_success_without_commit:
  "GCSStorage_Put example_gcs ''a/b.txt'' (Reader ''hello'' None) None
     (example_cloud\<lparr>gcs_faults := [NoFault, Fail (TransportError ''connection reset'')]\<rparr>) =
   ((5, None),
    \<lparr>buckets = [(''bucket'', [])], gcs_clock = 1,
     gcs_calls = [Call_Write_Object ''bucket'' ''a/b.txt'', Call_Close_Writer ''bucket'' ''a/b.txt''],
     gcs_faults = []\<rparr>)"
  by (simp add: gcs_eval)

text \<open>
  C1. \<open>Put\<close> followed by \<open>Get\<close> must yield the bytes that were put. On the cloud backend a
  \<open>Put\<close> that returned no error need not have stored anything (the error of \<open>Close\<close> is
  dropped): the \<open>Get\<close> that follows finds no object.
\<close>

theorem GCSStorage_Put_Get_no_roundtrip:
  "(case GCSStorage_Put example_gcs ''a/b.txt'' (Reader ''hello'' None) None
           (example_cloud\<lparr>gcs_faults := [NoFault, Fail (TransportError ''connection reset'')]\<rparr>) of
      (r, g1) \<Rightarrow> (r, fst (GCSStorage_Get example_gcs ''a/b.txt'' g1))) =
   ((5, None), Inl (Errorf_w ''failed to open file %q'' [''bucket/a/b.txt''] ErrObjectNotExist))"
  by (simp add: gcs_eval path_eval)

text \<open>
  C2. After \<open>Put\<close> of five bytes at \<open>a/b.txt\<close>, \<open>List\<close> of \<open>a\<close> must return one entry named
  \<open>a/b.txt\<close> of size 5. The cloud \<open>List\<close> joins the prefix with \<open>attrs.Name\<close>, which is
  already the full object name: the entry is named \<open>a/a/b.txt\<close>.
\<close>

theorem GCSStorage_List_repeats_prefix:
  "(case GCSStorage_Put example_gcs ''a/b.txt'' (Reader ''hello'' None) None example_cloud of
      (r, g1) \<Rightarrow> (r, fst (GCSStorage_List example_gcs ''a'' g1))) =
   ((5, None),
    Inr [\<lparr>Name = ''a/a/b.txt'', Size = 5, UpdatedAt = 1, Info_Metadata = []\<rparr>])"
  by (simp add: gcs_eval path_eval)

section \<open>Argument checks\<close>

lemma Local_Get_empty:
  "checkRootDir ls = None \<Longrightarrow> LocalStorage_Get ls [] w = (Inl (Errorf ''name required''), w)"
  by (simp add: LocalStorage_Get_def)

lemma Local_Put_empty:
  "checkRootDir ls = None \<Longrightarrow> LocalStorage_Put ls [] r opts w = ((0, Some (Errorf ''name required'')), w)"
  by (simp add: LocalStorage_Put_def)

lemma Local_List_empty:
  "checkRootDir ls = None \<Longrightarrow> LocalStorage_List ls [] w = (Inl (Errorf ''prefix required''), w)"
  by (simp add: LocalStorage_List_def)

lemma Local_Copy_empty:
  "checkRootDir ls = None \<Longrightarrow> src = [] \<or> dst = [] \<Longrightarrow>
   LocalStorage_Copy ls src dst w =
     (Some (Errorf (if src = [] then ''src required'' else ''dst required'')), w)"
  by (auto simp add: LocalStorage_Copy_def)

lemma Local_Move_empty:
  "checkRootDir ls = None \<Longrightarrow> src = [] \<or> dst = [] \<Longrightarrow>
   LocalStorage_Move ls src dst w =
     (Some (Errorf (if src = [] then ''src required'' else ''dst required'')), w)"
  by (auto simp add: LocalStorage_Move_def)

lemma Local_Delete_empty:
  "checkRootDir ls = None \<Longrightarrow> LocalStorage_Delete ls [] w = (Some (Errorf ''name required''), w)"
  by (simp add: LocalStorage_Delete_def)

lemma Local_DeleteAll_empty:
  "checkRootDir ls = None \<Longrightarrow> LocalStorage_DeleteAll ls [] w = (Some (Errorf ''prefix required''), w)"
  by (simp add: LocalStorage_DeleteAll_def)

lemma GCS_Get_empty:
  "checkClientAndBucket gs = None \<Longrightarrow> GCSStorage_Get gs [] g = (Inl (Errorf ''name required''), g)"
  by (simp add: GCSStorage_Get_def)

lemma GCS_Put_empty:
  "checkClientAndBucket gs = None \<Longrightarrow> GCSStorage_Put gs [] r opts g = ((0, Some (Errorf ''name required'')), g)"
  by (simp add: GCSStorage_Put_def)

lemma GCS_List_empty:
  "checkClientAndBucket gs = None \<Longrightarrow> GCSStorage_List gs [] g = (Inl (Errorf ''prefix required''), g)"
  by (simp add: GCSStorage_List_def)

lemma GCS_Copy_empty:
  "checkClientAndBucket gs = None \<Longrightarrow> src = [] \<or> dst = [] \<Longrightarrow>
   GCSStorage_Copy gs src dst g =
     (Some (Errorf (if src = [] then ''src required'' else ''dst required'')), g)"
  by (auto simp add: GCSStorage_Copy_def)

lemma GCS_Move_empty:
  "checkClientAndBucket gs = None \<Longrightarrow> src = [] \<or> dst = [] \<Longrightarrow>
   GCSStorage_Move gs src dst g =
     (Some (Errorf (if src = [] then ''src required'' else ''dst required'')), g)"
  by (auto simp add: GCSStorage_Move_def)

lemma GCS_Delete_empty:
  "checkClientAndBucket gs = None \<Longrightarrow> GCSStorage_Delete gs [] g = (Some (Errorf ''name required''), g)"
  by (simp add: GCSStorage_Delete_def)

lemma GCS_DeleteAll_empty:
  "checkClientAndBucket gs = None \<Longrightarrow> GCSStorage_DeleteAll gs [] g = (Some (Errorf ''prefix required''), g)"
  by (simp add: GCSStorage_DeleteAll_def)

lemma InvalidArgument_values:
  "InvalidArgument (Errorf ''name required'')"
  "InvalidArgument (Errorf ''prefix required'')"
  "InvalidArgument (Errorf ''src required'')"
  "InvalidArgument (Errorf ''dst required'')"
  by (simp_all add: InvalidArgument_def)

text \<open>
  C4, as stated: every operation called with an empty name, prefix, src or dst returns an
  InvalidArgument error. It fails on an instance without a backend target, where the check
  of the target comes first: \<open>Get\<close> of the empty name on a local instance with the empty
  root returns the configuration error.
\<close>

theorem unconfigured_Get_empty_name:
  "LocalStorage_Get (NewLocalStorage [] ''local'') [] example_fs =
     (Inl (Errorf_w ''invalid root path'' [] (Errorf ''root dir required'')), example_fs) \<and>
   \<not> InvalidArgument (Errorf_w ''invalid root path'' [] (Errorf ''root dir required'')) \<and>
   Configuration (Errorf_w ''invalid root path'' [] (Errorf ''root dir required''))"
  by (simp add: LocalStorage_Get_def NewLocalStorage_def checkRootDir_def InvalidArgument_def)

text \<open>
  C4, amended: on an instance whose backend target is configured (local: the root is not
  empty; cloud: the client is not nil and the bucket name is not empty), every operation
  called with an empty name, prefix, src or dst returns the InvalidArgument error that names
  the argument, and the state of the backend, the list of backend calls included, is the
  one before the call: no I/O was performed. \<open>Copy\<close> and \<open>Move\<close> check src before dst.
\<close>

theorem empty_argument_is_rejected_without_io:
  assumes "checkRootDir ls = None" and "checkClientAndBucket gs = None"
  shows
    "LocalStorage_Get ls [] w = (Inl (Errorf ''name required''), w) \<and>
     LocalStorage_Put ls [] r opts w = ((0, Some (Errorf ''name required'')), w) \<and>
     LocalStorage_List ls [] w = (Inl (Errorf ''prefix required''), w) \<and>
     LocalStorage_Copy ls [] dst w = (Some (Errorf ''src required''), w) \<and>
     LocalStorage_Copy ls (c # src) [] w = (Some (Errorf ''dst required''), w) \<and>
     LocalStorage_Move ls [] dst w = (Some (Errorf ''src required''), w) \<and>
     LocalStorage_Move ls (c # src) [] w = (Some (Errorf ''dst required''), w) \<and>
     LocalStorage_Delete ls [] w = (Some (Errorf ''name required''), w) \<and>
     LocalStorage_DeleteAll ls [] w = (Some (Errorf ''prefix required''), w) \<and>
     GCSStorage_Get gs [] g = (Inl (Errorf ''name required''), g) \<and>
     GCSStorage_Put gs [] r opts g = ((0, Some (Errorf ''name required'')), g) \<and>
     GCSStorage_List gs [] g = (Inl (Errorf ''prefix required''), g) \<and>
     GCSStorage_Copy gs [] dst g = (Some (Errorf ''src required''), g) \<and>
     GCSStorage_Copy gs (c # src) [] g = (Some (Errorf ''dst required''), g) \<and>
     GCSStorage_Move gs [] dst g = (Some (Errorf ''src required''), g) \<and>
     GCSStorage_Move gs (c # src) [] g = (Some (Errorf ''dst required''), g) \<and>
     GCSStorage_Delete gs [] g = (Some (Errorf ''name required''), g) \<and>
     GCSStorage_DeleteAll gs [] g = (Some (Errorf ''prefix required''), g) \<and>
     InvalidArgument (Errorf ''name required'') \<and> InvalidArgument (Errorf ''prefix required'') \<and>
     InvalidArgument (Errorf ''src required'') \<and> InvalidArgument (Errorf ''dst required'')"
  using assms
  by (simp add: Local_Get_empty Local_Put_empty Local_List_empty Local_Copy_empty
      Local_Move_empty Local_Delete_empty Local_DeleteAll_empty GCS_Get_empty GCS_Put_empty
      GCS_List_empty GCS_Copy_empty GCS_Move_empty GCS_Delete_empty GCS_DeleteAll_empty
      InvalidArgument_values)

theorem empty_argument_is_rejected_without_io_witness:
  "checkRootDir example_local = None \<and> checkClientAndBucket example_gcs = None \<and>
   LocalStorage_Get example_local [] example_fs = (Inl (Errorf ''name required''), example_fs) \<and>
   LocalStorage_Move example_local ''a'' [] example_fs = (Some (Errorf ''dst required''), example_fs) \<and>
   GCSStorage_DeleteAll example_gcs [] example_cloud = (Some (Errorf ''prefix required''), example_cloud)"
proof -
  have l: "checkRootDir example_local = None"
    by (simp add: checkRootDir_def example_local_def NewLocalStorage_def)
  have c: "checkClientAndBucket example_gcs = None"
    by (simp add: checkClientAndBucket_def example_gcs_def NewGCSStorage_def)
  show ?thesis
    using l c
      empty_argument_is_rejected_without_io [OF l c, of example_fs "Reader [] None" None "[]" "CHR ''a''" "[]" example_cloud]
    by simp
qed

section \<open>Backend calls: what one call does to the state\<close>

lemmas local_eval =
  example_fs_def example_local_def NewLocalStorage_def checkRootDir_def
  LocalStorage_PathJoin_def enter_def fault_errno_def fault_limit_def locate_def set_tree_def
  split_beta Let_def

lemma enter_fields [simp]:
  "tree (snd (enter c w)) = tree w"
  "cwd (snd (enter c w)) = cwd w"
  "clock (snd (enter c w)) = clock w"
  "calls (snd (enter c w)) = calls w @ [c]"
  "faults (snd (enter c w)) = tl (faults w)"
  by (simp_all add: enter_def split: list.split)

lemma enter_quiet: "quiet (faults w) \<Longrightarrow> fst (enter c w) = NoFault"
  by (simp add: enter_def quiet_def split: list.splits)

lemma locate_enter [simp]: "locate (snd (enter c w)) p = locate w p"
  by (simp add: locate_def)

lemma fault_errno_NoFault [simp]: "fault_errno NoFault = None"
  by (simp add: fault_errno_def)

lemma fault_limit_NoFault [simp]: "fault_limit NoFault = None"
  by (simp add: fault_limit_def)

lemma os_ReadDir_quiet:
  "quiet (faults w) \<Longrightarrow>
   os_ReadDir p w =
     (case locate w p of
        Inl e \<Rightarrow> Inl (PathError ''open'' p e)
      | Inr (File b t) \<Rightarrow> Inl (PathError ''open'' p ENOTDIR)
      | Inr (Dir es) \<Rightarrow> Inr (sort_key entry_Name (dir_entries p es)),
      snd (enter (Call_ReadDir p) w))"
  by (simp add: os_ReadDir_def enter_quiet split_beta split: sum.split node.split)

lemma gcs_enter_fields [simp]:
  "buckets (snd (gcs_enter c g)) = buckets g"
  "gcs_clock (snd (gcs_enter c g)) = gcs_clock g"
  "gcs_calls (snd (gcs_enter c g)) = gcs_calls g @ [c]"
  "gcs_faults (snd (gcs_enter c g)) = tl (gcs_faults g)"
  by (simp_all add: gcs_enter_def split: list.split)

lemma gcs_enter_quiet: "quiet (gcs_faults g) \<Longrightarrow> fst (gcs_enter c g) = NoFault"
  by (simp add: gcs_enter_def quiet_def split: list.splits)

lemma Objects_quiet:
  "quiet (gcs_faults g) \<Longrightarrow> map_of (buckets g) b = Some objs \<Longrightarrow>
   Objects b prefix g =
     ((sort_key attrs_Name (map attrs_of (filter (\<lambda>kv. has_prefix prefix (fst kv)) objs)), None),
      snd (gcs_enter (Call_Objects b prefix) g))"
  by (simp add: Objects_def gcs_enter_quiet split_beta)

section \<open>Listing a prefix that is not there\<close>

text \<open>
  C7, as stated: for every non-empty prefix whose path does not exist, \<open>List\<close> returns an
  empty sequence and no error. On the local backend the source forgives only the error
  that \<open>os.IsNotExist\<close> recognises. Where a component of the path other than the last is a
  regular file, nothing exists at the path either, but the lookup fails with "not a
  directory", and \<open>List\<close> returns the error: with the file \<open>/data/f\<close>, listing \<open>f/x\<close>.
\<close>

theorem List_below_a_file_fails:
  "locate fs_with_file ''/data/f/x'' = Inl ENOTDIR \<and>
   fst (LocalStorage_List example_local ''f/x'' fs_with_file) =
     Inl (Errorf_w ''failed to list files %q'' [''/data/f/x'']
            (PathError ''open'' ''/data/f/x'' ENOTDIR))"
  by (simp add: fs_with_file_def local_eval path_eval LocalStorage_List_def os_ReadDir_def)

lemma GCS_List_missing_bucket:
  assumes "checkClientAndBucket gs = None" and "prefix \<noteq> []"
    and "map_of (buckets g) (bucketName gs) = None"
  shows "isl (fst (GCSStorage_List gs prefix g))"
  using assms
  by (simp add: GCSStorage_List_def Objects_def split_beta Let_def split: option.split)

text \<open>
  C7, amended. For a non-empty prefix:

  \<^item> on a configured local instance, when the joined path is missing in the sense of
    \<open>os.IsNotExist\<close> (the lookup fails with \<open>ENOENT\<close>: the last element of the path or a
    directory above it is not there) and the environment injects no failure into the call,
    \<open>List\<close> returns the empty sequence and no error, and leaves the file tree as it was;

  \<^item> on a configured cloud instance, when the bucket exists, none of its object names
    starts with the prefix and the environment injects no failure into the call, \<open>List\<close>
    returns the empty sequence and no error, and leaves the buckets as they were.

  Where the bucket does not exist, the listing fails and \<open>List\<close> returns an error
  (\<open>GCS_List_missing_bucket\<close>).
\<close>

theorem List_of_missing_prefix_is_empty:
  assumes "prefix \<noteq> []"
  shows
    "(checkRootDir ls = None \<and> quiet (faults w) \<and>
      locate w (Join [rootDir ls, prefix]) = Inl ENOENT \<longrightarrow>
        fst (LocalStorage_List ls prefix w) = Inr [] \<and>
        tree (snd (LocalStorage_List ls prefix w)) = tree w) \<and>
     (checkClientAndBucket gs = None \<and> quiet (gcs_faults g) \<and>
      map_of (buckets g) (bucketName gs) = Some objs \<and>
      filter (\<lambda>kv. has_prefix prefix (fst kv)) objs = [] \<longrightarrow>
        fst (GCSStorage_List gs prefix g) = Inr [] \<and>
        buckets (snd (GCSStorage_List gs prefix g)) = buckets g)"
  using assms
  by (simp add: LocalStorage_List_def LocalStorage_PathJoin_def os_ReadDir_quiet
      GCSStorage_List_def Objects_quiet)

theorem List_of_missing_prefix_is_empty_witness:
  "locate fs_with_dir (Join [rootDir example_local, ''zz'']) = Inl ENOENT \<and>
   fst (LocalStorage_List example_local ''zz'' fs_with_dir) = Inr [] \<and>
   tree (snd (LocalStorage_List example_local ''zz'' fs_with_dir)) = tree fs_with_dir \<and>
   map_of (buckets cloud_with_objects) ''bucket'' \<noteq> Some [] \<and>
   fst (GCSStorage_List example_gcs ''zz'' cloud_with_objects) = Inr [] \<and>
   buckets (snd (GCSStorage_List example_gcs ''zz'' cloud_with_objects)) = buckets cloud_with_objects"
proof -
  let ?objs = "[(''a/b.txt'', \<lparr>obj_data = ''hello'', obj_ContentType = [], obj_Metadata = [], obj_Updated = 1\<rparr>),
          (''c.txt'', \<lparr>obj_data = ''other'', obj_ContentType = [], obj_Metadata = [], obj_Updated = 1\<rparr>),
          (''a/d.txt'', \<lparr>obj_data = [], obj_ContentType = [], obj_Metadata = [], obj_Updated = 1\<rparr>)]"
  have 1: "checkRootDir example_local = None" by (simp add: local_eval)
  have 2: "''zz'' \<noteq> []" by simp
  have 3: "quiet (faults fs_with_dir)" by (simp add: quiet_def fs_with_dir_def example_fs_def)
  have 4: "locate fs_with_dir (Join [rootDir example_local, ''zz'']) = Inl ENOENT"
    by (simp add: fs_with_dir_def local_eval path_eval)
  have 5: "checkClientAndBucket example_gcs = None" by (simp add: gcs_eval)
  have 6: "quiet (gcs_faults cloud_with_objects)"
    by (simp add: quiet_def cloud_with_objects_def example_cloud_def)
  have 7: "map_of (buckets cloud_with_objects) (bucketName example_gcs) = Some ?objs"
    by (simp add: cloud_with_objects_def gcs_eval)
  have 8: "filter (\<lambda>kv. has_prefix ''zz'' (fst kv)) ?objs = []"
    by (simp add: has_prefix_def)
  have 9: "map_of (buckets cloud_with_objects) ''bucket'' \<noteq> Some []"
    by (simp add: cloud_with_objects_def)
  from List_of_missing_prefix_is_empty [OF 2, of example_local fs_with_dir, THEN conjunct1] 1 3 4
  have a: "fst (LocalStorage_List example_local ''zz'' fs_with_dir) = Inr [] \<and>
           tree (snd (LocalStorage_List example_local ''zz'' fs_with_dir)) = tree fs_with_dir"
    by blast
  from List_of_missing_prefix_is_empty [OF 2, of _ _ example_gcs cloud_with_objects ?objs, THEN conjunct2] 5 6 7 8
  have b: "fst (GCSStorage_List example_gcs ''zz'' cloud_with_objects) = Inr [] \<and>
           buckets (snd (GCSStorage_List example_gcs ''zz'' cloud_with_objects)) = buckets cloud_with_objects"
    by blast
  from 4 9 a b show ?thesis by simp
qed

lemma node_at_Nil [simp]: "node_at t [] = Some t"
  by (simp add: node_at_def)

lemma node_at_File [simp]: "node_at (File b m) (c # cs) = None"
  by (simp add: node_at_def)

lemma node_at_Dir [simp]:
  "node_at (Dir es) (c # cs) = (case map_of es c of None \<Rightarrow> None | Some m \<Rightarrow> node_at m cs)"
  by (simp add: node_at_def split: option.split)

section \<open>The file-system tree\<close>

lemma map_of_delete_same [simp]: "map_of (AList.delete c es) c = None"
  by (simp add: delete_conv')

lemma map_of_update_same [simp]: "map_of (AList.update c m es) c = Some m"
  by (simp add: update_conv')

lemma alter_node_at:
  "alter f p t = Inr t' \<Longrightarrow> \<exists>r. f (node_at t p) = Inr r \<and> node_at t' p = r"
proof (induction p arbitrary: t t')
  case Nil
  then show ?case by simp
next
  case (Cons c cs)
  show ?case
  proof (cases t)
    case (File b m)
    with Cons.prems show ?thesis by simp
  next
    case (Dir es)
    show ?thesis
    proof (cases "cs = []")
      case True
      with Cons.prems Dir show ?thesis
        by (auto split: sum.splits option.splits)
    next
      case False
      with Cons.prems Dir obtain m m' where
        m: "map_of es c = Some m" and a: "alter f cs m = Inr m'" and t': "t' = Dir (AList.update c m' es)"
        by (auto split: sum.splits option.splits)
      from Cons.IH [OF a] obtain r where "f (node_at m cs) = Inr r" "node_at m' cs = r" by blast
      with Dir m t' show ?thesis by simp
    qed
  qed
qed

lemma alter_walk_removed:
  "alter f p t = Inr t' \<Longrightarrow> f (node_at t p) = Inr None \<Longrightarrow> walk t' p = Inl ENOENT"
proof (induction p arbitrary: t t')
  case Nil
  then show ?case by simp
next
  case (Cons c cs)
  show ?case
  proof (cases t)
    case (File b m)
    with Cons.prems show ?thesis by simp
  next
    case (Dir es)
    show ?thesis
    proof (cases "cs = []")
      case True
      with Cons.prems Dir show ?thesis
        by (auto split: sum.splits option.splits)
    next
      case False
      with Cons.prems Dir obtain m m' where
        m: "map_of es c = Some m" and a: "alter f cs m = Inr m'" and t': "t' = Dir (AList.update c m' es)"
        by (auto split: sum.splits option.splits)
      from Cons.prems(2) Dir m have "f (node_at m cs) = Inr None" by simp
      from Cons.IH [OF a this] Dir m t' show ?thesis by simp
    qed
  qed
qed

lemma alter_isl_present:
  "p \<noteq> [] \<Longrightarrow> walk t p = Inr n \<Longrightarrow> isl (alter f p t) = isl (f (Some n))"
proof (induction p arbitrary: t)
  case Nil
  then show ?case by simp
next
  case (Cons c cs)
  show ?case
  proof (cases t)
    case (File b m)
    with Cons.prems show ?thesis by simp
  next
    case (Dir es)
    with Cons.prems obtain m where m: "map_of es c = Some m" and w: "walk m cs = Inr n"
      by (auto split: option.splits)
    show ?thesis
    proof (cases "cs = []")
      case True
      with Dir m w show ?thesis by (auto split: sum.splits option.splits)
    next
      case False
      from Cons.IH [OF False w] Dir m False show ?thesis
        by (auto split: sum.splits)
    qed
  qed
qed

lemma alter_isl_absent:
  "walk t p = Inl e \<Longrightarrow> isl (f None) \<Longrightarrow> isl (alter f p t)"
proof (induction p arbitrary: t)
  case Nil
  then show ?case by simp
next
  case (Cons c cs)
  show ?case
  proof (cases t)
    case (File b m)
    then show ?thesis by simp
  next
    case (Dir es)
    show ?thesis
    proof (cases "map_of es c")
      case None
      with Dir Cons.prems show ?thesis by (auto split: sum.splits)
    next
      case (Some m)
      with Dir Cons.prems have w: "walk m cs = Inl e" by simp
      then have "cs \<noteq> []" by auto
      with Cons.IH [OF w Cons.prems(2)] Dir Some show ?thesis
        by (auto split: sum.splits)
    qed
  qed
qed

section \<open>Delete on the local backend\<close>

lemma os_Remove_quiet:
  "quiet (faults w) \<Longrightarrow> \<not> ends_with_dot p \<Longrightarrow> \<not> ends_with_dotdot p \<Longrightarrow>
   os_Remove p w =
     (if p = [] then (Some (PathError ''remove'' p ENOENT), snd (enter (Call_Remove p) w))
      else (case alter remove_entry (resolve (cwd w) p) (tree w) of
              Inl e \<Rightarrow> (Some (PathError ''remove'' p e), snd (enter (Call_Remove p) w))
            | Inr t \<Rightarrow> (None, (snd (enter (Call_Remove p) w))\<lparr>tree := t\<rparr>)))"
  by (simp add: os_Remove_def enter_quiet split_beta set_tree_def split: sum.split)

lemma os_Remove_dots:
  "ends_with_dot p \<or> ends_with_dotdot p \<Longrightarrow> fst (os_Remove p w) \<noteq> None"
  by (simp add: os_Remove_def split_beta split: option.split sum.split node.split)

lemma Delete_result:
  "checkRootDir ls = None \<Longrightarrow> nm \<noteq> [] \<Longrightarrow>
   LocalStorage_Delete ls nm w =
     (case os_Remove (Join [rootDir ls, nm]) w of
        (Some err, w1) \<Rightarrow> (Some (Errorf_w ''failed to delete file %q'' [Join [rootDir ls, nm]] err), w1)
      | (None, w1) \<Rightarrow> (None, w1))"
  by (simp add: LocalStorage_Delete_def LocalStorage_PathJoin_def Let_def)

lemma isl_remove_entry: "isl (remove_entry (Some n)) = (\<not> removable n)"
  by (simp add: remove_entry_def removable_def split: node.split)

lemma remove_entry_Some: "remove_entry (Some n) = Inr r \<Longrightarrow> r = None"
  by (auto simp add: remove_entry_def split: node.splits if_splits)

lemma remove_entry_Inr: "remove_entry x = Inr r \<Longrightarrow> r = None"
  by (auto simp add: remove_entry_def split: node.splits if_splits option.splits)

lemma os_Remove_succeeds_iff:
  assumes "quiet (faults w)" and "resolve (cwd w) p \<noteq> []"
    and "\<not> ends_with_dot p" and "\<not> ends_with_dotdot p"
  shows "(fst (os_Remove p w) = None) =
         (case locate w p of Inl e \<Rightarrow> False | Inr n \<Rightarrow> removable n)"
proof (cases "p = []")
  case True
  with assms show ?thesis by (simp add: os_Remove_quiet locate_def)
next
  case False
  show ?thesis
  proof (cases "walk (tree w) (resolve (cwd w) p)")
    case (Inl e)
    have "isl (remove_entry None)" by (simp add: remove_entry_def)
    from alter_isl_absent [where f = remove_entry, OF Inl this] False assms Inl show ?thesis
      by (auto simp add: os_Remove_quiet locate_def split: sum.splits)
  next
    case (Inr n)
    from alter_isl_present [where f = remove_entry, OF assms(2) Inr] False assms Inr show ?thesis
      by (auto simp add: os_Remove_quiet locate_def isl_remove_entry split: sum.splits)
  qed
qed

lemma os_Remove_root:
  assumes "quiet (faults w)" and "resolve (cwd w) p = []"
  shows "fst (os_Remove p w) \<noteq> None"
proof (cases "ends_with_dot p \<or> ends_with_dotdot p")
  case True
  then show ?thesis by (rule os_Remove_dots)
next
  case False
  with assms show ?thesis by (simp add: os_Remove_quiet)
qed

lemma os_Remove_removes:
  assumes "quiet (faults w)" and "os_Remove p w = (None, w1)"
  shows "locate w1 p = Inl ENOENT"
proof (cases "p = []")
  case True
  then show ?thesis by (simp add: locate_def)
next
  case False
  from assms(2) os_Remove_dots [of p w] have nd: "\<not> ends_with_dot p" "\<not> ends_with_dotdot p"
    by auto
  with False assms obtain t where a: "alter remove_entry (resolve (cwd w) p) (tree w) = Inr t"
    and w1: "w1 = (snd (enter (Call_Remove p) w))\<lparr>tree := t\<rparr>"
    by (auto simp add: os_Remove_quiet split: sum.splits)
  from alter_node_at [OF a] obtain r where
    r: "remove_entry (node_at (tree w) (resolve (cwd w) p)) = Inr r" by blast
  with remove_entry_Inr [OF r]
  have "remove_entry (node_at (tree w) (resolve (cwd w) p)) = Inr None" by simp
  from alter_walk_removed [OF a this] w1 False show ?thesis
    by (simp add: locate_def)
qed

text \<open>
  C10, as stated: \<open>Delete\<close> succeeds when the name denotes an empty directory, and fails
  exactly when the path is absent or a non-empty directory. The name \<open>.\<close> on the root
  directory \<open>.\<close> denotes the working directory. When that is empty, \<open>Delete\<close> still fails:
  \<open>os.Remove\<close> cannot remove a path whose last element is a dot.
\<close>

theorem Delete_of_the_working_directory_fails:
  "locate fs_in_work (Join [rootDir local_here, ''.'']) = Inr (Dir []) \<and>
   fst (LocalStorage_Delete local_here ''.'' fs_in_work) =
     Some (Errorf_w ''failed to delete file %q'' [''.''] (PathError ''remove'' ''.'' EINVAL))"
  by (simp add: fs_in_work_def local_here_def local_eval path_eval LocalStorage_Delete_def
      os_Remove_def ends_with_dot_def)

text \<open>
  C10, amended. On a configured local instance, for a non-empty name, and with no failure
  injected into the call: \<open>Delete\<close> returns no error exactly when the joined path does not
  end in the element \<open>.\<close> or \<open>..\<close>, is not the root of the file system, and leads to a
  regular file or to a directory without entries. That is exactly when \<open>os.Remove\<close>
  returns no error. After a \<open>Delete\<close> that returned no error nothing is at the path: an
  empty directory is removed like an object.
\<close>

theorem Delete_removes_file_or_empty_directory:
  assumes "checkRootDir ls = None" and "nm \<noteq> []" and "quiet (faults w)"
  shows "(fst (LocalStorage_Delete ls nm w) = None) =
           (\<not> ends_with_dot (Join [rootDir ls, nm]) \<and>
            \<not> ends_with_dotdot (Join [rootDir ls, nm]) \<and>
            resolve (cwd w) (Join [rootDir ls, nm]) \<noteq> [] \<and>
            (case locate w (Join [rootDir ls, nm]) of
               Inl e \<Rightarrow> False
             | Inr (File b t) \<Rightarrow> True
             | Inr (Dir es) \<Rightarrow> es = [])) \<and>
         (fst (LocalStorage_Delete ls nm w) = None) = (fst (os_Remove (Join [rootDir ls, nm]) w) = None) \<and>
         (fst (LocalStorage_Delete ls nm w) = None \<longrightarrow>
            locate (snd (LocalStorage_Delete ls nm w)) (Join [rootDir ls, nm]) = Inl ENOENT)"
proof -
  let ?p = "Join [rootDir ls, nm]"
  obtain r w1 where rm: "os_Remove ?p w = (r, w1)" by (cases "os_Remove ?p w")
  have d: "fst (LocalStorage_Delete ls nm w) = None \<longleftrightarrow> r = None"
    and s: "snd (LocalStorage_Delete ls nm w) = w1"
    using assms(1,2) rm by (auto simp add: Delete_result split: option.splits)
  have 1: "(r = None) =
             (\<not> ends_with_dot ?p \<and> \<not> ends_with_dotdot ?p \<and> resolve (cwd w) ?p \<noteq> [] \<and>
              (case locate w ?p of Inl e \<Rightarrow> False | Inr n \<Rightarrow> removable n))"
  proof (cases "ends_with_dot ?p \<or> ends_with_dotdot ?p")
    case True
    from os_Remove_dots [OF True, of w] rm True show ?thesis by auto
  next
    case nd: False
    show ?thesis
    proof (cases "resolve (cwd w) ?p = []")
      case True
      from os_Remove_root [OF assms(3) True] rm True show ?thesis by simp
    next
      case False
      from nd have "\<not> ends_with_dot ?p" "\<not> ends_with_dotdot ?p" by simp_all
      from os_Remove_succeeds_iff [OF assms(3) False this] rm nd False show ?thesis by simp
    qed
  qed
  have 2: "r = None \<longrightarrow> locate w1 ?p = Inl ENOENT"
    using os_Remove_removes [OF assms(3)] rm by blast
  have 3: "(case locate w ?p of Inl e \<Rightarrow> False | Inr n \<Rightarrow> removable n) =
           (case locate w ?p of Inl e \<Rightarrow> False | Inr (File b t) \<Rightarrow> True | Inr (Dir es) \<Rightarrow> es = [])"
    by (simp add: removable_def split: sum.split node.split)
  show ?thesis
    using d s 1 2 rm unfolding 3 by simp
qed

theorem Delete_removes_file_or_empty_directory_witness:
  "locate fs_with_dir (Join [rootDir example_local, ''d'']) = Inr (Dir []) \<and>
   fst (LocalStorage_Delete example_local ''d'' fs_with_dir) = None \<and>
   locate (snd (LocalStorage_Delete example_local ''d'' fs_with_dir)) (Join [rootDir example_local, ''d'']) = Inl ENOENT \<and>
   locate fs_with_dir (Join [rootDir example_local, ''e'']) = Inr (Dir [(''x'', File ''1'' 1)]) \<and>
   fst (LocalStorage_Delete example_local ''e'' fs_with_dir) \<noteq> None"
proof -
  have 1: "checkRootDir example_local = None" by (simp add: local_eval)
  have 2: "''d'' \<noteq> []" "''e'' \<noteq> []" by simp_all
  have 3: "quiet (faults fs_with_dir)" by (simp add: quiet_def fs_with_dir_def example_fs_def)
  have 4: "\<not> ends_with_dot (Join [rootDir example_local, ''d''])"
    "\<not> ends_with_dotdot (Join [rootDir example_local, ''d''])"
    "resolve (cwd fs_with_dir) (Join [rootDir example_local, ''d'']) \<noteq> []"
    by (simp_all add: fs_with_dir_def local_eval path_eval ends_with_dot_def ends_with_dotdot_def)
  have 5: "locate fs_with_dir (Join [rootDir example_local, ''d'']) = Inr (Dir [])"
    by (simp add: fs_with_dir_def local_eval path_eval)
  have 6: "locate fs_with_dir (Join [rootDir example_local, ''e'']) = Inr (Dir [(''x'', File ''1'' 1)])"
    by (simp add: fs_with_dir_def local_eval path_eval)
  from Delete_removes_file_or_empty_directory [OF 1 2(1) 3, THEN conjunct1] 4 5
  have a: "fst (LocalStorage_Delete example_local ''d'' fs_with_dir) = None" by simp
  from Delete_removes_file_or_empty_directory [OF 1 2(1) 3, THEN conjunct2, THEN conjunct2] a
  have b: "locate (snd (LocalStorage_Delete example_local ''d'' fs_with_dir))
             (Join [rootDir example_local, ''d'']) = Inl ENOENT" by simp
  from Delete_removes_file_or_empty_directory [OF 1 2(2) 3, THEN conjunct1] 6
  have c: "fst (LocalStorage_Delete example_local ''e'' fs_with_dir) \<noteq> None" by simp
  from 5 6 a b c show ?thesis by simp
qed

section \<open>Cleaned paths do not end in a dot\<close>

lemma split_slash_no_slash: "c \<in> set (split_slash p) \<Longrightarrow> CHR ''/'' \<notin> set c"
proof (induction p arbitrary: c)
  case Nil
  then show ?case by simp
next
  case (Cons a p)
  then show ?case
    by (cases "split_slash p") (auto split: if_splits)
qed

lemma clean_step_elements:
  assumes "\<forall>x \<in> set out. x \<noteq> [] \<and> x \<noteq> ''.'' \<and> CHR ''/'' \<notin> set x" and "CHR ''/'' \<notin> set c"
  shows "\<forall>x \<in> set (clean_step r out c). x \<noteq> [] \<and> x \<noteq> ''.'' \<and> CHR ''/'' \<notin> set x"
  using assms by (auto simp add: clean_step_def dest: in_set_butlastD)

lemma foldl_clean_step_elements:
  assumes "\<forall>c \<in> set cs. CHR ''/'' \<notin> set c"
    and "\<forall>x \<in> set out. x \<noteq> [] \<and> x \<noteq> ''.'' \<and> CHR ''/'' \<notin> set x"
  shows "\<forall>x \<in> set (foldl (clean_step r) out cs). x \<noteq> [] \<and> x \<noteq> ''.'' \<and> CHR ''/'' \<notin> set x"
  using assms
proof (induction cs arbitrary: out)
  case Nil
  then show ?case by simp
next
  case (Cons c cs)
  have "\<forall>x \<in> set (clean_step r out c). x \<noteq> [] \<and> x \<noteq> ''.'' \<and> CHR ''/'' \<notin> set x"
    using clean_step_elements [OF Cons.prems(2), of c r] Cons.prems(1) by simp
  with Cons.IH [of "clean_step r out c"] Cons.prems(1) show ?case by simp
qed

lemma foldl_join: "foldl (\<lambda>acc e. acc @ CHR ''/'' # e) y ys = y @ concat (map ((#) CHR ''/'') ys)"
  by (induction ys arbitrary: y) simp_all

lemma join_slash_last:
  assumes "out \<noteq> []"
  shows "\<exists>pre. join_slash out = pre @ last out \<and> (pre = [] \<or> last pre = CHR ''/'')"
proof (cases out)
  case Nil
  with assms show ?thesis by simp
next
  case (Cons y ys)
  show ?thesis
  proof (cases "ys = []")
    case True
    with Cons show ?thesis by (simp add: join_slash_def)
  next
    case False
    then obtain zs z where ys: "ys = zs @ [z]" by (cases ys rule: rev_cases) auto
    have "join_slash out = y @ concat (map ((#) CHR ''/'') ys)"
      using Cons by (simp add: join_slash_def foldl_join)
    then have "join_slash out = (y @ concat (map ((#) CHR ''/'') zs) @ ''/'') @ last out"
      using Cons ys by simp
    moreover have "last (y @ concat (map ((#) CHR ''/'') zs) @ ''/'') = CHR ''/''" by simp
    ultimately show ?thesis by blast
  qed
qed

lemma not_ends_with_dot:
  assumes "e \<noteq> []" and "e \<noteq> ''.''" and "CHR ''/'' \<notin> set e" and "pre = [] \<or> last pre = CHR ''/''"
  shows "\<not> ends_with_dot (pre @ e)"
proof
  assume d: "ends_with_dot (pre @ e)"
  show False
  proof (cases "butlast e = []")
    case True
    with assms(1) have e: "e = [last e]" by (metis append_butlast_last_id append_Nil)
    from d have "last (pre @ e) = CHR ''.''"
      by (auto simp add: ends_with_dot_def)
    with assms(1) have "last e = CHR ''.''" by simp
    with e assms(2) show False by simp
  next
    case False
    then have "last (butlast (pre @ e)) = last (butlast e)"
      using assms(1) by (simp add: butlast_append)
    moreover have "last (butlast e) \<in> set e"
      using False by (meson in_set_butlastD last_in_set)
    moreover have "length e \<ge> 2"
      using False by (cases e) (auto simp add: Suc_le_eq)
    then have "length (pre @ e) \<noteq> length ''.''" by simp
    then have "pre @ e \<noteq> ''.''" by metis
    with d have "last (butlast (pre @ e)) = CHR ''/''"
      by (auto simp add: ends_with_dot_def)
    ultimately show False using assms(3) by simp
  qed
qed

lemma Clean_ends_with_dot: "ends_with_dot (Clean q) \<Longrightarrow> Clean q = ''.''"
proof (cases "q = []")
  case True
  then show ?thesis by (simp add: Clean_def)
next
  case False
  assume d: "ends_with_dot (Clean q)"
  let ?out = "foldl (clean_step (rooted q)) [] (split_slash q)"
  have el: "\<forall>x \<in> set ?out. x \<noteq> [] \<and> x \<noteq> ''.'' \<and> CHR ''/'' \<notin> set x"
    by (rule foldl_clean_step_elements) (simp_all add: split_slash_no_slash)
  show ?thesis
  proof (cases "?out = []")
    case True
    with False d show ?thesis by (auto simp add: Clean_def Let_def join_slash_def ends_with_dot_def)
  next
    case out: False
    from join_slash_last [OF out] obtain pre where
      j: "join_slash ?out = pre @ last ?out" and p: "pre = [] \<or> last pre = CHR ''/''" by blast
    from out el have l: "last ?out \<noteq> []" "last ?out \<noteq> ''.''" "CHR ''/'' \<notin> set (last ?out)"
      by (meson last_in_set)+
    have 1: "\<not> ends_with_dot (pre @ last ?out)"
      by (rule not_ends_with_dot [OF l p])
    have 2: "\<not> ends_with_dot ((CHR ''/'' # pre) @ last ?out)"
      by (rule not_ends_with_dot [OF l]) (use p in auto)
    from False out d j 1 2 show ?thesis
      by (auto simp add: Clean_def Let_def)
  qed
qed

lemma Join_root: "root \<noteq> [] \<Longrightarrow> Join [root, nm] = Clean (join_slash [root, nm])"
  by (simp add: Join_def)

lemma resolve_dot: "resolve wd ''.'' = wd"
  by (simp add: resolve_def resolve_step_def rooted_def)

lemma Join_ends_with_dot:
  assumes "root \<noteq> []" and "ends_with_dot (Join [root, nm])"
  shows "locate w (Join [root, nm]) = walk (tree w) (cwd w)"
proof -
  from assms have "Join [root, nm] = ''.''"
    using Clean_ends_with_dot by (simp add: Join_root)
  then show ?thesis by (simp add: locate_def resolve_dot)
qed

section \<open>DeleteAll\<close>

lemma os_RemoveAll_absent:
  assumes "quiet (faults w)" and "locate w p = Inl ENOENT" and "\<not> ends_with_dot p"
  shows "os_RemoveAll p w = (None, snd (enter (Call_RemoveAll p) w))"
  using assms by (simp add: os_RemoveAll_def enter_quiet split_beta)

lemma os_RemoveAll_success:
  assumes "os_RemoveAll p w = (None, w1)" and "p \<noteq> []"
  shows "\<not> ends_with_dot p \<and> locate w1 p = Inl ENOENT"
proof -
  let ?w0 = "snd (enter (Call_RemoveAll p) w)"
  from assms have nd: "\<not> ends_with_dot p"
    by (auto simp add: os_RemoveAll_def split_beta split: option.splits if_splits)
  from assms have nf: "fault_errno (fst (enter (Call_RemoveAll p) w)) = None"
    by (auto simp add: os_RemoveAll_def split_beta split: option.splits)
  have "locate w1 p = Inl ENOENT"
  proof (cases "locate w p")
    case (Inl e)
    with assms nd nf have "e = ENOENT \<and> w1 = ?w0"
      by (auto simp add: os_RemoveAll_def split_beta split: if_splits sum.splits)
    with Inl show ?thesis by simp
  next
    case (Inr n)
    with assms nd nf obtain t where
      a: "alter (\<lambda>_. Inr None) (resolve (cwd w) p) (tree w) = Inr t" and w1: "w1 = ?w0\<lparr>tree := t\<rparr>"
      by (auto simp add: os_RemoveAll_def split_beta set_tree_def split: if_splits sum.splits)
    from alter_walk_removed [OF a] w1 assms(2) show ?thesis
      by (simp add: locate_def)
  qed
  with nd show ?thesis ..
qed

lemma os_RemoveAll_twice:
  assumes "os_RemoveAll p w = (None, w1)" and "quiet (faults w1)"
  shows "os_RemoveAll p w1 = (None, snd (enter (Call_RemoveAll p) w1))"
proof (cases "p = []")
  case True
  with assms(2) show ?thesis by (simp add: os_RemoveAll_def enter_quiet split_beta)
next
  case False
  from os_RemoveAll_success [OF assms(1) False]
  have "\<not> ends_with_dot p" and "locate w1 p = Inl ENOENT" by simp_all
  from os_RemoveAll_absent [OF assms(2) this(2,1)] show ?thesis .
qed

lemma Local_DeleteAll_result:
  "checkRootDir ls = None \<Longrightarrow> prefix \<noteq> [] \<Longrightarrow>
   LocalStorage_DeleteAll ls prefix w =
     (case os_RemoveAll (Join [rootDir ls, prefix]) w of
        (Some err, w1) \<Rightarrow> (Some (Errorf_w ''failed to delete path %q'' [Join [rootDir ls, prefix]] err), w1)
      | (None, w1) \<Rightarrow> (None, w1))"
  by (simp add: LocalStorage_DeleteAll_def LocalStorage_PathJoin_def Let_def)

lemma Local_DeleteAll_twice:
  assumes "checkRootDir ls = None" and "prefix \<noteq> []"
    and "LocalStorage_DeleteAll ls prefix w = (None, w1)" and "quiet (faults w1)"
  shows "LocalStorage_DeleteAll ls prefix w1 = (None, snd (enter (Call_RemoveAll (Join [rootDir ls, prefix])) w1))"
proof -
  from assms(3) have "os_RemoveAll (Join [rootDir ls, prefix]) w = (None, w1)"
    by (auto simp add: Local_DeleteAll_result [OF assms(1,2)] split: prod.splits option.splits)
  from os_RemoveAll_twice [OF this assms(4)] show ?thesis
    by (simp add: Local_DeleteAll_result [OF assms(1,2)])
qed

lemma Local_DeleteAll_absent:
  assumes "checkRootDir ls = None" and "prefix \<noteq> []" and "quiet (faults w)"
    and "locate w (Join [rootDir ls, prefix]) = Inl ENOENT" and "node_at (tree w) (cwd w) \<noteq> None"
  shows "LocalStorage_DeleteAll ls prefix w = (None, snd (enter (Call_RemoveAll (Join [rootDir ls, prefix])) w))"
proof -
  from assms(1) have r: "rootDir ls \<noteq> []" by (simp add: checkRootDir_def split: if_splits)
  have "\<not> ends_with_dot (Join [rootDir ls, prefix])"
  proof
    assume "ends_with_dot (Join [rootDir ls, prefix])"
    from Join_ends_with_dot [OF r this, of w] assms(4) have "walk (tree w) (cwd w) = Inl ENOENT" by simp
    with assms(5) show False by (simp add: node_at_def)
  qed
  from os_RemoveAll_absent [OF assms(3,4) this] show ?thesis
    by (simp add: Local_DeleteAll_result [OF assms(1,2)])
qed

section \<open>DeleteAll on the cloud backend\<close>

lemma Object_Delete_success:
  assumes "Object_Delete b nm g = (None, g1)" and "map_of (buckets g) b = Some objs"
  shows "map_of (buckets g1) b = Some (AList.delete nm objs)"
  using assms
  by (auto simp add: Object_Delete_def split_beta split: option.splits)

lemma DeleteAll_loop_success:
  assumes "GCSStorage_DeleteAll_loop gs prefix found fin g = (None, g1)"
    and "map_of (buckets g) (bucketName gs) = Some objs"
  shows "fin = None \<and>
         map_of (buckets g1) (bucketName gs) =
           Some (filter (\<lambda>kv. fst kv \<notin> attrs_Name ` set found) objs)"
  using assms
proof (induction found arbitrary: g objs)
  case Nil
  then show ?case by (cases fin) (simp_all add: Let_def)
next
  case (Cons a rest)
  from Cons.prems(1) obtain g' where
    d: "Object_Delete (bucketName gs) (attrs_Name a) g = (None, g')"
    and l: "GCSStorage_DeleteAll_loop gs prefix rest fin g' = (None, g1)"
    by (auto split: prod.splits option.splits)
  from Object_Delete_success [OF d Cons.prems(2)]
  have "map_of (buckets g') (bucketName gs) = Some (AList.delete (attrs_Name a) objs)" .
  from Cons.IH [OF l this] show ?case
    by (auto simp add: AList.delete_eq intro: filter_cong)
qed

lemma Objects_result:
  assumes "Objects b prefix g = ((found, None), g1)"
  shows "\<exists>objs. map_of (buckets g) b = Some objs \<and> buckets g1 = buckets g \<and>
           gcs_faults g1 = tl (gcs_faults g) \<and>
           found = sort_key attrs_Name (map attrs_of (filter (\<lambda>kv. has_prefix prefix (fst kv)) objs))"
  using assms
  by (auto simp add: Objects_def split_beta Let_def split: option.splits)

lemma Objects_state: "snd (Objects b prefix g) = snd (gcs_enter (Call_Objects b prefix) g)"
  by (simp add: Objects_def split_beta Let_def split: option.splits)

lemma Objects_no_bucket:
  assumes "map_of (buckets g) b = None"
  shows "fst (fst (Objects b prefix g)) = [] \<and> snd (fst (Objects b prefix g)) \<noteq> None"
  using assms by (simp add: Objects_def split_beta split: option.split)

lemma GCS_DeleteAll_result:
  "checkClientAndBucket gs = None \<Longrightarrow> prefix \<noteq> [] \<Longrightarrow>
   GCSStorage_DeleteAll gs prefix g =
     (case Objects (bucketName gs) prefix g of
        ((found, fin), g1) \<Rightarrow> GCSStorage_DeleteAll_loop gs prefix found fin g1)"
  by (simp add: GCSStorage_DeleteAll_def)

lemma GCS_DeleteAll_absent:
  assumes "checkClientAndBucket gs = None" and "prefix \<noteq> []" and "quiet (gcs_faults g)"
    and "map_of (buckets g) (bucketName gs) = Some objs"
    and "filter (\<lambda>kv. has_prefix prefix (fst kv)) objs = []"
  shows "GCSStorage_DeleteAll gs prefix g = (None, snd (gcs_enter (Call_Objects (bucketName gs) prefix) g))"
  using assms by (simp add: GCS_DeleteAll_result Objects_quiet)

lemma GCS_DeleteAll_twice:
  assumes "checkClientAndBucket gs = None" and "prefix \<noteq> []"
    and "GCSStorage_DeleteAll gs prefix g = (None, g1)" and "quiet (gcs_faults g1)"
  shows "GCSStorage_DeleteAll gs prefix g1 = (None, snd (gcs_enter (Call_Objects (bucketName gs) prefix) g1))"
proof -
  obtain found fin g0 where o: "Objects (bucketName gs) prefix g = ((found, fin), g0)"
    by (metis prod.exhaust)
  with assms(1-3) have l: "GCSStorage_DeleteAll_loop gs prefix found fin g0 = (None, g1)"
    by (simp add: GCS_DeleteAll_result)
  have g0: "buckets g0 = buckets g"
    using Objects_state [of "bucketName gs" prefix g] o by simp
  have "fin = None"
  proof (cases "map_of (buckets g) (bucketName gs)")
    case None
    from Objects_no_bucket [OF None, of prefix] o have "found = [] \<and> fin \<noteq> None" by simp
    with l show ?thesis by (auto simp add: Let_def)
  next
    case (Some objs0)
    with g0 have "map_of (buckets g0) (bucketName gs) = Some objs0" by simp
    from DeleteAll_loop_success [OF l this] show ?thesis by simp
  qed
  with o have o': "Objects (bucketName gs) prefix g = ((found, None), g0)" by simp
  from Objects_result [OF o'] obtain objs where
    b: "map_of (buckets g) (bucketName gs) = Some objs" and b0: "buckets g0 = buckets g"
    and f: "found = sort_key attrs_Name (map attrs_of (filter (\<lambda>kv. has_prefix prefix (fst kv)) objs))"
    by blast
  from b b0 have "map_of (buckets g0) (bucketName gs) = Some objs" by simp
  from DeleteAll_loop_success [OF l this]
  have b1: "map_of (buckets g1) (bucketName gs) = Some (filter (\<lambda>kv. fst kv \<notin> attrs_Name ` set found) objs)"
    by simp
  have "attrs_Name ` set found = fst ` set (filter (\<lambda>kv. has_prefix prefix (fst kv)) objs)"
    by (auto simp add: f attrs_of_def image_iff)
  then have "filter (\<lambda>kv. has_prefix prefix (fst kv)) (filter (\<lambda>kv. fst kv \<notin> attrs_Name ` set found) objs) = []"
    by (auto simp add: filter_empty_conv image_iff)
  from GCS_DeleteAll_absent [OF assms(1,2,4) b1 this] show ?thesis .
qed

lemma GCS_DeleteAll_missing_bucket:
  assumes "checkClientAndBucket gs = None" and "prefix \<noteq> []"
    and "map_of (buckets g) (bucketName gs) = None"
  shows "fst (GCSStorage_DeleteAll gs prefix g) \<noteq> None"
proof -
  obtain found fin g0 where o: "Objects (bucketName gs) prefix g = ((found, fin), g0)"
    by (metis prod.exhaust)
  from Objects_no_bucket [OF assms(3), of prefix] o have "found = [] \<and> fin \<noteq> None" by simp
  with o assms(1,2) show ?thesis
    by (auto simp add: GCS_DeleteAll_result Let_def)
qed

lemmas tree_eval =
  os_RemoveAll_def os_Remove_def os_MkdirAll_def os_Create_def os_Open_def os_Rename_def
  io_Copy_def os_ReadDir_def DirEntry_Info_def ends_with_dot_def ends_with_dotdot_def
  splitPath_def rename_refused_def rename_tree_def
  create_entry_def write_entry_def remove_entry_def place_entry_def file_reader_def
  dir_entries_def is_dir_def

text \<open>
  C6, as stated: for every non-empty prefix the second of two calls of \<open>DeleteAll\<close> returns
  no error, and \<open>DeleteAll\<close> returns no error when no object matches the prefix. On the
  local backend \<open>os.RemoveAll\<close> forgives only the error that \<open>os.IsNotExist\<close> recognises.
  With the regular file \<open>/data/f\<close> no object matches the prefix \<open>f/x\<close>, but the removal
  fails with "not a directory", and \<open>DeleteAll\<close> returns the error, the first time and the
  second.
\<close>

theorem DeleteAll_below_a_file_fails:
  "locate fs_with_file ''/data/f/x'' = Inl ENOTDIR \<and>
   LocalStorage_DeleteAll example_local ''f/x'' fs_with_file =
     (Some (Errorf_w ''failed to delete path %q'' [''/data/f/x'']
              (PathError ''unlinkat'' ''/data/f/x'' ENOTDIR)),
      fs_with_file\<lparr>calls := [Call_RemoveAll ''/data/f/x'']\<rparr>) \<and>
   fst (LocalStorage_DeleteAll example_local ''f/x''
          (fs_with_file\<lparr>calls := [Call_RemoveAll ''/data/f/x'']\<rparr>)) =
     Some (Errorf_w ''failed to delete path %q'' [''/data/f/x'']
             (PathError ''unlinkat'' ''/data/f/x'' ENOTDIR))"
  by (simp add: fs_with_file_def local_eval path_eval LocalStorage_DeleteAll_def tree_eval)

text \<open>
  C6, amended. On configured instances and for a non-empty prefix:

  \<^item> when a call of \<open>DeleteAll\<close> has returned no error, a second call with the same prefix,
    into which the environment injects no failure, returns no error and leaves the stored
    data (the file tree, the buckets) as it is, on both backends;

  \<^item> on the local backend, when the joined path is missing in the sense of
    \<open>os.IsNotExist\<close> (its last element or a directory above it is not there), the working
    directory exists and no failure is injected, \<open>DeleteAll\<close> returns no error and leaves
    the file tree as it is;

  \<^item> on the cloud backend, when the bucket exists, none of its object names starts with
    the prefix and no failure is injected, \<open>DeleteAll\<close> returns no error and leaves the
    buckets as they are.

  Where the bucket does not exist, the listing fails and \<open>DeleteAll\<close> returns its error
  (\<open>GCS_DeleteAll_missing_bucket\<close>).
\<close>

theorem DeleteAll_is_idempotent:
  assumes "checkRootDir ls = None" and "checkClientAndBucket gs = None" and "prefix \<noteq> []"
  shows
    "(LocalStorage_DeleteAll ls prefix w = (None, w1) \<and> quiet (faults w1) \<longrightarrow>
        fst (LocalStorage_DeleteAll ls prefix w1) = None \<and>
        tree (snd (LocalStorage_DeleteAll ls prefix w1)) = tree w1) \<and>
     (GCSStorage_DeleteAll gs prefix g = (None, g1) \<and> quiet (gcs_faults g1) \<longrightarrow>
        fst (GCSStorage_DeleteAll gs prefix g1) = None \<and>
        buckets (snd (GCSStorage_DeleteAll gs prefix g1)) = buckets g1) \<and>
     (quiet (faults v) \<and> locate v (Join [rootDir ls, prefix]) = Inl ENOENT \<and>
      node_at (tree v) (cwd v) \<noteq> None \<longrightarrow>
        fst (LocalStorage_DeleteAll ls prefix v) = None \<and>
        tree (snd (LocalStorage_DeleteAll ls prefix v)) = tree v) \<and>
     (quiet (gcs_faults h) \<and> map_of (buckets h) (bucketName gs) = Some objs \<and>
      filter (\<lambda>kv. has_prefix prefix (fst kv)) objs = [] \<longrightarrow>
        fst (GCSStorage_DeleteAll gs prefix h) = None \<and>
        buckets (snd (GCSStorage_DeleteAll gs prefix h)) = buckets h)"
  using Local_DeleteAll_twice [OF assms(1,3), of w w1]
    GCS_DeleteAll_twice [OF assms(2,3), of g g1]
    Local_DeleteAll_absent [OF assms(1,3), of v]
    GCS_DeleteAll_absent [OF assms(2,3), of h objs]
  by simp

theorem DeleteAll_is_idempotent_witness:
  "LocalStorage_DeleteAll example_local ''e'' fs_with_dir =
     (None, fs_with_dir\<lparr>tree := Dir [(''data'', Dir [(''d'', Dir [])])], calls := [Call_RemoveAll ''/data/e'']\<rparr>) \<and>
   fst (LocalStorage_DeleteAll example_local ''e''
          (fs_with_dir\<lparr>tree := Dir [(''data'', Dir [(''d'', Dir [])])], calls := [Call_RemoveAll ''/data/e'']\<rparr>)) = None \<and>
   GCSStorage_DeleteAll example_gcs ''a/'' cloud_with_objects =
     (None, cloud_with_objects\<lparr>buckets :=
        [(''bucket'', [(''c.txt'', \<lparr>obj_data = ''other'', obj_ContentType = [], obj_Metadata = [], obj_Updated = 1\<rparr>)])],
        gcs_calls := [Call_Objects ''bucket'' ''a/'', Call_Delete_Object ''bucket'' ''a/b.txt'',
                      Call_Delete_Object ''bucket'' ''a/d.txt'']\<rparr>) \<and>
   fst (GCSStorage_DeleteAll example_gcs ''a/''
          (cloud_with_objects\<lparr>buckets :=
        [(''bucket'', [(''c.txt'', \<lparr>obj_data = ''other'', obj_ContentType = [], obj_Metadata = [], obj_Updated = 1\<rparr>)])],
        gcs_calls := [Call_Objects ''bucket'' ''a/'', Call_Delete_Object ''bucket'' ''a/b.txt'',
                      Call_Delete_Object ''bucket'' ''a/d.txt'']\<rparr>)) = None \<and>
   locate fs_with_dir (Join [rootDir example_local, ''zz/y'']) = Inl ENOENT \<and>
   fst (LocalStorage_DeleteAll example_local ''zz/y'' fs_with_dir) = None \<and>
   tree (snd (LocalStorage_DeleteAll example_local ''zz/y'' fs_with_dir)) = tree fs_with_dir \<and>
   fst (GCSStorage_DeleteAll example_gcs ''zz'' cloud_with_objects) = None \<and>
   buckets (snd (GCSStorage_DeleteAll example_gcs ''zz'' cloud_with_objects)) = buckets cloud_with_objects"
proof -
  let ?w1 = "fs_with_dir\<lparr>tree := Dir [(''data'', Dir [(''d'', Dir [])])], calls := [Call_RemoveAll ''/data/e'']\<rparr>"
  let ?g1 = "cloud_with_objects\<lparr>buckets :=
        [(''bucket'', [(''c.txt'', \<lparr>obj_data = ''other'', obj_ContentType = [], obj_Metadata = [], obj_Updated = 1\<rparr>)])],
        gcs_calls := [Call_Objects ''bucket'' ''a/'', Call_Delete_Object ''bucket'' ''a/b.txt'',
                      Call_Delete_Object ''bucket'' ''a/d.txt'']\<rparr>"
  let ?objs = "[(''a/b.txt'', \<lparr>obj_data = ''hello'', obj_ContentType = [], obj_Metadata = [], obj_Updated = 1\<rparr>),
          (''c.txt'', \<lparr>obj_data = ''other'', obj_ContentType = [], obj_Metadata = [], obj_Updated = 1\<rparr>),
          (''a/d.txt'', \<lparr>obj_data = [], obj_ContentType = [], obj_Metadata = [], obj_Updated = 1\<rparr>)]"
  have 1: "checkRootDir example_local = None" by (simp add: local_eval)
  have 2: "checkClientAndBucket example_gcs = None" by (simp add: gcs_eval)
  have 3: "''e'' \<noteq> []" "''a/'' \<noteq> []" "''zz/y'' \<noteq> []" "''zz'' \<noteq> []" by simp_all
  have 4: "LocalStorage_DeleteAll example_local ''e'' fs_with_dir = (None, ?w1)"
    by (simp add: LocalStorage_DeleteAll_def fs_with_dir_def local_eval path_eval tree_eval)
  have 5: "quiet (faults ?w1)" by (simp add: quiet_def fs_with_dir_def example_fs_def)
  have 6: "GCSStorage_DeleteAll example_gcs ''a/'' cloud_with_objects = (None, ?g1)"
    by (simp add: GCSStorage_DeleteAll_def cloud_with_objects_def gcs_eval Object_Delete_def)
  have 7: "quiet (gcs_faults ?g1)" by (simp add: quiet_def cloud_with_objects_def example_cloud_def)
  have 8: "quiet (faults fs_with_dir)" by (simp add: quiet_def fs_with_dir_def example_fs_def)
  have 9: "locate fs_with_dir (Join [rootDir example_local, ''zz/y'']) = Inl ENOENT"
    by (simp add: fs_with_dir_def local_eval path_eval)
  have 10: "node_at (tree fs_with_dir) (cwd fs_with_dir) \<noteq> None"
    by (simp add: fs_with_dir_def example_fs_def)
  have 11: "quiet (gcs_faults cloud_with_objects)"
    by (simp add: quiet_def cloud_with_objects_def example_cloud_def)
  have 12: "map_of (buckets cloud_with_objects) (bucketName example_gcs) = Some ?objs"
    by (simp add: cloud_with_objects_def gcs_eval)
  have 13: "filter (\<lambda>kv. has_prefix ''zz'' (fst kv)) ?objs = []"
    by (simp add: has_prefix_def)
  from DeleteAll_is_idempotent [OF 1 2 3(1), of fs_with_dir ?w1] 4 5
  have a: "fst (LocalStorage_DeleteAll example_local ''e'' ?w1) = None" by blast
  from DeleteAll_is_idempotent [OF 1 2 3(2), of _ _ cloud_with_objects ?g1] 6 7
  have b: "fst (GCSStorage_DeleteAll example_gcs ''a/'' ?g1) = None" by blast
  from DeleteAll_is_idempotent [OF 1 2 3(3), of _ _ _ _ fs_with_dir] 8 9 10
  have c: "fst (LocalStorage_DeleteAll example_local ''zz/y'' fs_with_dir) = None \<and>
           tree (snd (LocalStorage_DeleteAll example_local ''zz/y'' fs_with_dir)) = tree fs_with_dir"
    by blast
  from DeleteAll_is_idempotent [OF 1 2 3(4), of _ _ _ _ _ cloud_with_objects ?objs] 11 12 13
  have d: "fst (GCSStorage_DeleteAll example_gcs ''zz'' cloud_with_objects) = None \<and>
           buckets (snd (GCSStorage_DeleteAll example_gcs ''zz'' cloud_with_objects)) = buckets cloud_with_objects"
    by blast
  from 4 6 9 a b c d show ?thesis by simp
qed

section \<open>Creating directories\<close>

lemma Clean_nonempty: "Clean q \<noteq> []"
proof (cases "q = []")
  case True
  then show ?thesis by (simp add: Clean_def)
next
  case False
  let ?out = "foldl (clean_step (rooted q)) [] (split_slash q)"
  have el: "\<forall>x \<in> set ?out. x \<noteq> [] \<and> x \<noteq> ''.'' \<and> CHR ''/'' \<notin> set x"
    by (rule foldl_clean_step_elements) (simp_all add: split_slash_no_slash)
  show ?thesis
  proof (cases "?out = []")
    case True
    with False show ?thesis by (simp add: Clean_def Let_def)
  next
    case out: False
    from join_slash_last [OF out] obtain pre where j: "join_slash ?out = pre @ last ?out" by blast
    from out el have "last ?out \<noteq> []" by (meson last_in_set)
    with j have "join_slash ?out \<noteq> []" by simp
    with False out show ?thesis by (cases "rooted q") (simp_all add: Clean_def Let_def)
  qed
qed

lemma Dir_path_nonempty: "Dir_path p \<noteq> []"
  by (simp add: Dir_path_def Clean_nonempty)

lemma mkdir_all_absent:
  "walk t p = Inl ENOENT \<Longrightarrow> \<exists>t'. mkdir_all p t = Inr t' \<and> walk t' p = Inr (Dir [])"
proof (induction p arbitrary: t)
  case Nil
  then show ?case by simp
next
  case (Cons c cs)
  show ?case
  proof (cases t)
    case (File b m)
    with Cons.prems show ?thesis by simp
  next
    case (Dir es)
    show ?thesis
    proof (cases "map_of es c")
      case None
      have "\<exists>t'. mkdir_all cs (Dir []) = Inr t' \<and> walk t' cs = Inr (Dir [])"
      proof (cases cs)
        case Nil
        then show ?thesis by simp
      next
        case (Cons d ds)
        then have "walk (Dir []) cs = Inl ENOENT" by simp
        from Cons.IH [OF this] show ?thesis .
      qed
      with Dir None show ?thesis by auto
    next
      case (Some m)
      with Dir Cons.prems have "walk m cs = Inl ENOENT" by simp
      from Cons.IH [OF this] Dir Some show ?thesis by auto
    qed
  qed
qed

lemma mkdir_all_is_dir:
  "mkdir_all p t = Inr t' \<Longrightarrow> \<exists>es. walk t' p = Inr (Dir es)"
proof (induction p arbitrary: t t')
  case Nil
  then show ?case by (cases t) auto
next
  case (Cons c cs)
  show ?case
  proof (cases t)
    case (File b m)
    with Cons.prems show ?thesis by simp
  next
    case (Dir es)
    with Cons.prems obtain m' where
      m: "mkdir_all cs (case map_of es c of None \<Rightarrow> Dir [] | Some m \<Rightarrow> m) = Inr m'"
      and t': "t' = Dir (AList.update c m' es)"
      by (auto split: sum.splits)
    from Cons.IH [OF m] t' show ?thesis by simp
  qed
qed

lemma has_prefix_simps [simp]:
  "has_prefix [] p"
  "\<not> has_prefix (d # ds) []"
  "has_prefix (d # ds) (c # cs) = (d = c \<and> has_prefix ds cs)"
  by (auto simp add: has_prefix_def)

lemma mkdir_all_keeps_absent:
  "mkdir_all p t = Inr t' \<Longrightarrow> walk t q = Inl ENOENT \<Longrightarrow> \<not> has_prefix q p \<Longrightarrow> walk t' q = Inl ENOENT"
proof (induction p arbitrary: t t' q)
  case Nil
  then show ?case by (cases t) auto
next
  case (Cons c cs)
  show ?case
  proof (cases t)
    case (File b m)
    with Cons.prems show ?thesis by simp
  next
    case (Dir es)
    with Cons.prems(1) obtain m' where
      m: "mkdir_all cs (case map_of es c of None \<Rightarrow> Dir [] | Some m \<Rightarrow> m) = Inr m'"
      and t': "t' = Dir (AList.update c m' es)"
      by (auto split: sum.splits)
    from Cons.prems(3) obtain d ds where q: "q = d # ds" by (cases q) auto
    show ?thesis
    proof (cases "d = c")
      case False
      with Cons.prems(2) Dir q t' show ?thesis by (simp add: update_conv')
    next
      case True
      with Cons.prems(3) q have np: "\<not> has_prefix ds cs" by simp
      then have ds: "ds \<noteq> []" by auto
      have "walk (case map_of es c of None \<Rightarrow> Dir [] | Some m \<Rightarrow> m) ds = Inl ENOENT"
      proof (cases "map_of es c")
        case None
        with ds show ?thesis by (cases ds) auto
      next
        case (Some m0)
        with Cons.prems(2) Dir q True show ?thesis by simp
      qed
      from Cons.IH [OF m this np] q True t' show ?thesis by simp
    qed
  qed
qed

section \<open>Move on the local backend\<close>

lemma locate_update [simp]:
  "locate (w\<lparr>calls := cs\<rparr>) p = locate w p"
  "locate (w\<lparr>faults := fs\<rparr>) p = locate w p"
  by (simp_all add: locate_def)

lemma locate_same: "tree v = tree w \<Longrightarrow> cwd v = cwd w \<Longrightarrow> locate v p = locate w p"
  by (simp add: locate_def)

lemma enter_no_faults: "faults w = [] \<Longrightarrow> enter c w = (NoFault, w\<lparr>calls := calls w @ [c]\<rparr>)"
  by (simp add: enter_def)

lemma os_MkdirAll_no_faults:
  "faults w = [] \<Longrightarrow> p \<noteq> [] \<Longrightarrow> mkdir_all (resolve (cwd w) p) (tree w) = Inr t \<Longrightarrow>
   os_MkdirAll p m w = (None, w\<lparr>calls := calls w @ [Call_MkdirAll p m], tree := t\<rparr>)"
  by (simp add: os_MkdirAll_def enter_no_faults set_tree_def)

lemma rename_refused_absent:
  "locate w old = Inl ENOENT \<Longrightarrow>
   rename_refused w old new = None \<or> rename_refused w old new = Some ENOENT"
  by (simp add: rename_refused_def split: sum.split node.split)

lemma os_Rename_absent:
  assumes "faults w = []" and "locate w old = Inl ENOENT"
  shows "os_Rename old new w =
     (Some (LinkError ''rename'' old new ENOENT), w\<lparr>calls := calls w @ [Call_Rename old new]\<rparr>)"
proof -
  let ?w1 = "w\<lparr>calls := calls w @ [Call_Rename old new]\<rparr>"
  from assms(2) have l: "locate ?w1 old = Inl ENOENT" by (simp add: locate_def split: if_splits)
  from rename_refused_absent [OF l, of new] show ?thesis
  proof
    assume "rename_refused ?w1 old new = None"
    with assms show ?thesis
      by (auto simp add: os_Rename_def enter_no_faults rename_tree_def locate_def split: if_splits)
  next
    assume "rename_refused ?w1 old new = Some ENOENT"
    with assms show ?thesis
      by (simp add: os_Rename_def enter_no_faults)
  qed
qed

lemma os_Open_absent:
  "faults w = [] \<Longrightarrow> locate w p = Inl e \<Longrightarrow>
   os_Open p w = (Inl (PathError ''open'' p e), w\<lparr>calls := calls w @ [Call_Open p]\<rparr>)"
  by (simp add: os_Open_def enter_no_faults)

lemma Local_Copy_absent:
  "checkRootDir ls = None \<Longrightarrow> src \<noteq> [] \<Longrightarrow> dst \<noteq> [] \<Longrightarrow> faults w = [] \<Longrightarrow>
   locate w (Join [rootDir ls, src]) = Inl e \<Longrightarrow>
   LocalStorage_Copy ls src dst w =
     (Some (Errorf_w ''failed to open src file %q'' [Join [rootDir ls, src]]
              (PathError ''open'' (Join [rootDir ls, src]) e)),
      w\<lparr>calls := calls w @ [Call_Open (Join [rootDir ls, src])]\<rparr>)"
  by (simp add: LocalStorage_Copy_def os_Open_absent Let_def)

text \<open>
  C9. On a configured local instance, with non-empty names and no injected failure: when
  nothing is at the source path and the directory of the destination path does not exist
  (and the source path is not that directory or one above it), \<open>Move\<close> first calls
  \<open>os.MkdirAll\<close> with mode \<open>0755\<close> on the destination's directory, then \<open>os.Rename\<close>,
  then, in \<open>Copy\<close>, \<open>os.Open\<close> on the source, where the absence of the source is found.
  \<open>Move\<close> returns an error, and the destination's directory, which did not exist before,
  is there afterwards: the tree has changed.
\<close>

theorem Move_creates_destination_directory_first:
  assumes "checkRootDir ls = None" and "src \<noteq> []" and "dst \<noteq> []" and "faults w = []"
    and "locate w (Join [rootDir ls, src]) = Inl ENOENT"
    and "locate w (Dir_path (Join [rootDir ls, dst])) = Inl ENOENT"
    and "\<not> has_prefix (resolve (cwd w) (Join [rootDir ls, src]))
             (resolve (cwd w) (Dir_path (Join [rootDir ls, dst])))"
  shows "fst (LocalStorage_Move ls src dst w) \<noteq> None \<and>
         locate (snd (LocalStorage_Move ls src dst w)) (Dir_path (Join [rootDir ls, dst])) = Inr (Dir []) \<and>
         tree (snd (LocalStorage_Move ls src dst w)) \<noteq> tree w \<and>
         calls (snd (LocalStorage_Move ls src dst w)) =
           calls w @ [Call_MkdirAll (Dir_path (Join [rootDir ls, dst])) 493,
                      Call_Rename (Join [rootDir ls, src]) (Join [rootDir ls, dst]),
                      Call_Open (Join [rootDir ls, src])]"
proof -
  let ?sp = "Join [rootDir ls, src]"
  let ?tp = "Join [rootDir ls, dst]"
  let ?dp = "Dir_path ?tp"
  have dp: "?dp \<noteq> []" by (rule Dir_path_nonempty)
  with assms(6) have "walk (tree w) (resolve (cwd w) ?dp) = Inl ENOENT"
    by (simp add: locate_def)
  from mkdir_all_absent [OF this] obtain t where
    mk: "mkdir_all (resolve (cwd w) ?dp) (tree w) = Inr t"
    and wk: "walk t (resolve (cwd w) ?dp) = Inr (Dir [])" by blast
  let ?w1 = "w\<lparr>calls := calls w @ [Call_MkdirAll ?dp 493], tree := t\<rparr>"
  have 1: "os_MkdirAll ?dp 493 w = (None, ?w1)"
    by (rule os_MkdirAll_no_faults [OF assms(4) dp mk])
  have f1: "faults ?w1 = []" using assms(4) by simp
  have s1: "locate ?w1 ?sp = Inl ENOENT"
  proof (cases "?sp = []")
    case True
    then show ?thesis by (simp add: locate_def)
  next
    case False
    with assms(5) have "walk (tree w) (resolve (cwd w) ?sp) = Inl ENOENT"
      by (simp add: locate_def)
    from mkdir_all_keeps_absent [OF mk this assms(7)] False show ?thesis
      by (simp add: locate_def)
  qed
  let ?w2 = "?w1\<lparr>calls := calls ?w1 @ [Call_Rename ?sp ?tp]\<rparr>"
  have 2: "os_Rename ?sp ?tp ?w1 = (Some (LinkError ''rename'' ?sp ?tp ENOENT), ?w2)"
    by (rule os_Rename_absent [OF f1 s1])
  have f2: "faults ?w2 = []" using assms(4) by simp
  have "locate ?w2 ?sp = locate ?w1 ?sp" by (rule locate_same) simp_all
  with s1 have s2: "locate ?w2 ?sp = Inl ENOENT" by simp
  let ?w3 = "?w2\<lparr>calls := calls ?w2 @ [Call_Open ?sp]\<rparr>"
  have 3: "LocalStorage_Copy ls src dst ?w2 =
             (Some (Errorf_w ''failed to open src file %q'' [?sp] (PathError ''open'' ?sp ENOENT)), ?w3)"
    by (rule Local_Copy_absent [OF assms(1-3) f2 s2])
  have m: "LocalStorage_Move ls src dst w =
             (Some (Errorf_w ''failed to copy file %q to %q'' [src, dst]
                      (Errorf_w ''failed to open src file %q'' [?sp] (PathError ''open'' ?sp ENOENT))), ?w3)"
    using assms(1-3) 1 2 3 by (simp add: LocalStorage_Move_def Let_def)
  have t3: "tree ?w3 = t" "cwd ?w3 = cwd w" by simp_all
  have l3: "locate ?w3 ?dp = Inr (Dir [])" using wk dp t3 by (simp add: locate_def)
  have "tree ?w3 \<noteq> tree w"
  proof
    assume "tree ?w3 = tree w"
    then have "locate ?w3 ?dp = locate w ?dp" using t3(2) by (rule locate_same)
    with l3 assms(6) show False by simp
  qed
  with m l3 show ?thesis by simp
qed

theorem Move_creates_destination_directory_first_witness:
  "locate example_fs (Join [rootDir example_local, ''x'']) = Inl ENOENT \<and>
   locate example_fs (Dir_path (Join [rootDir example_local, ''c/d.txt''])) = Inl ENOENT \<and>
   fst (LocalStorage_Move example_local ''x'' ''c/d.txt'' example_fs) \<noteq> None \<and>
   locate (snd (LocalStorage_Move example_local ''x'' ''c/d.txt'' example_fs)) ''/data/c'' = Inr (Dir []) \<and>
   calls (snd (LocalStorage_Move example_local ''x'' ''c/d.txt'' example_fs)) =
     [Call_MkdirAll ''/data/c'' 493, Call_Rename ''/data/x'' ''/data/c/d.txt'', Call_Open ''/data/x'']"
proof -
  have 1: "checkRootDir example_local = None" by (simp add: local_eval)
  have 2: "''x'' \<noteq> []" "''c/d.txt'' \<noteq> []" by simp_all
  have 3: "faults example_fs = []" by (simp add: example_fs_def)
  have 4: "locate example_fs (Join [rootDir example_local, ''x'']) = Inl ENOENT"
    by (simp add: local_eval path_eval)
  have 5: "locate example_fs (Dir_path (Join [rootDir example_local, ''c/d.txt''])) = Inl ENOENT"
    by (simp add: local_eval path_eval)
  have 6: "\<not> has_prefix (resolve (cwd example_fs) (Join [rootDir example_local, ''x'']))
             (resolve (cwd example_fs) (Dir_path (Join [rootDir example_local, ''c/d.txt''])))"
    by (simp add: local_eval path_eval)
  have 7: "Dir_path (Join [rootDir example_local, ''c/d.txt'']) = ''/data/c''"
    "Join [rootDir example_local, ''x''] = ''/data/x''"
    "Join [rootDir example_local, ''c/d.txt''] = ''/data/c/d.txt''"
    "calls example_fs = []"
    by (simp_all add: local_eval path_eval)
  from Move_creates_destination_directory_first [OF 1 2 3 4 5 6] 4 5 7 show ?thesis
    by simp
qed

section \<open>The backend calls of Move\<close>

lemma set_tree_calls [simp]: "calls (snd (set_tree w p f)) = calls w"
  by (simp add: set_tree_def split: sum.split)

lemma os_MkdirAll_calls: "calls (snd (os_MkdirAll p m w)) = calls w @ [Call_MkdirAll p m]"
  by (simp add: os_MkdirAll_def split_beta split: option.split)

lemma os_Rename_calls: "calls (snd (os_Rename old new w)) = calls w @ [Call_Rename old new]"
  by (simp add: os_Rename_def split_beta split: option.split sum.split)

lemma os_Open_calls: "calls (snd (os_Open p w)) = calls w @ [Call_Open p]"
  by (simp add: os_Open_def split_beta split: option.split sum.split)

lemma os_Open_file: "os_Open p w = (Inr f, w1) \<Longrightarrow> f = OpenFile p"
  by (auto simp add: os_Open_def split_beta split: option.splits sum.splits)

lemma os_Create_calls: "calls (snd (os_Create p w)) = calls w @ [Call_Create p]"
  by (simp add: os_Create_def split_beta split: option.split)

lemma os_Create_file: "os_Create p w = (Inr f, w1) \<Longrightarrow> f = OpenFile p"
  by (auto simp add: os_Create_def split_beta split: option.splits if_splits)

lemma io_Copy_calls: "calls (snd (io_Copy (OpenFile p) r w)) = calls w @ [Call_Write p]"
  by (cases r) (simp add: io_Copy_def split_beta split: option.split)

lemma os_Remove_calls: "calls (snd (os_Remove p w)) = calls w @ [Call_Remove p]"
  by (simp add: os_Remove_def split_beta split: option.split sum.split node.split)

lemma Local_Copy_calls:
  assumes "checkRootDir ls = None" and "src \<noteq> []" and "dst \<noteq> []"
    and "LocalStorage_Copy ls src dst w = (None, w')"
  shows "calls w' = calls w @
           [Call_Open (Join [rootDir ls, src]),
            Call_MkdirAll (Dir_path (Join [rootDir ls, dst])) 493,
            Call_Create (Join [rootDir ls, dst]),
            Call_Write (Join [rootDir ls, dst])]"
proof -
  let ?sp = "Join [rootDir ls, src]"
  let ?tp = "Join [rootDir ls, dst]"
  from assms obtain f w1 where o: "os_Open ?sp w = (Inr f, w1)"
    by (auto simp add: LocalStorage_Copy_def Let_def split: prod.splits sum.splits)
  from assms o obtain w2 where m: "os_MkdirAll (Dir_path ?tp) 493 w1 = (None, w2)"
    by (auto simp add: LocalStorage_Copy_def Let_def split: prod.splits option.splits)
  from assms o m obtain d w3 where c: "os_Create ?tp w2 = (Inr d, w3)"
    by (auto simp add: LocalStorage_Copy_def Let_def split: prod.splits sum.splits)
  from assms o m c have w: "w' = snd (io_Copy d (file_reader f w3) w3)"
    by (auto simp add: LocalStorage_Copy_def Let_def split: prod.splits option.splits)
  have "calls w1 = calls w @ [Call_Open ?sp]" using os_Open_calls [of ?sp w] o by simp
  moreover have "calls w2 = calls w1 @ [Call_MkdirAll (Dir_path ?tp) 493]"
    using os_MkdirAll_calls [of "Dir_path ?tp" 493 w1] m by simp
  moreover have "calls w3 = calls w2 @ [Call_Create ?tp]"
    using os_Create_calls [of ?tp w2] c by simp
  moreover have "calls w' = calls w3 @ [Call_Write ?tp]"
    using w os_Create_file [OF c] by (simp add: io_Copy_calls)
  ultimately show ?thesis by simp
qed

lemma Local_Delete_calls:
  assumes "checkRootDir ls = None" and "nm \<noteq> []"
  shows "calls (snd (LocalStorage_Delete ls nm w)) = calls w @ [Call_Remove (Join [rootDir ls, nm])]"
  using assms os_Remove_calls [of "Join [rootDir ls, nm]" w]
  by (auto simp add: Delete_result split: prod.split option.split)

lemma Local_Move_result:
  assumes "checkRootDir ls = None" and "src \<noteq> []" and "dst \<noteq> []"
    and "os_MkdirAll (Dir_path (Join [rootDir ls, dst])) 493 w = (None, w1)"
    and "os_Rename (Join [rootDir ls, src]) (Join [rootDir ls, dst]) w1 = (r, w2)"
  shows "LocalStorage_Move ls src dst w =
           (case r of
              None \<Rightarrow> (None, w2)
            | Some e \<Rightarrow>
                (case LocalStorage_Copy ls src dst w2 of
                   (Some err, w3) \<Rightarrow> (Some (Errorf_w ''failed to copy file %q to %q'' [src, dst] err), w3)
                 | (None, w3) \<Rightarrow>
                     (case LocalStorage_Delete ls src w3 of
                        (Some err, w4) \<Rightarrow> (Some (Errorf_w ''failed to delete file %q'' [src] err), w4)
                      | (None, w4) \<Rightarrow> (None, w4))))"
  using assms by (simp add: LocalStorage_Move_def Let_def split: option.split)

lemma Local_Move_calls_renamed:
  assumes "os_MkdirAll dp 493 w = (None, w1)" and "os_Rename sp tp w1 = (r, w2)"
  shows "calls w2 = calls w @ [Call_MkdirAll dp 493, Call_Rename sp tp]"
  using os_MkdirAll_calls [of dp 493 w] os_Rename_calls [of sp tp w1] assms by simp

lemma Local_Move_calls_copied:
  assumes "checkRootDir ls = None" and "src \<noteq> []" and "dst \<noteq> []"
    and "os_MkdirAll (Dir_path (Join [rootDir ls, dst])) 493 w = (None, w1)"
    and "os_Rename (Join [rootDir ls, src]) (Join [rootDir ls, dst]) w1 = (Some e, w2)"
    and "fst (LocalStorage_Move ls src dst w) = None"
  shows "calls (snd (LocalStorage_Move ls src dst w)) =
           calls w @
           [Call_MkdirAll (Dir_path (Join [rootDir ls, dst])) 493,
            Call_Rename (Join [rootDir ls, src]) (Join [rootDir ls, dst]),
            Call_Open (Join [rootDir ls, src]),
            Call_MkdirAll (Dir_path (Join [rootDir ls, dst])) 493,
            Call_Create (Join [rootDir ls, dst]),
            Call_Write (Join [rootDir ls, dst]),
            Call_Remove (Join [rootDir ls, src])]"
proof -
  note m = Local_Move_result [OF assms(1-5)]
  from m assms(6) obtain w3 where c: "LocalStorage_Copy ls src dst w2 = (None, w3)"
    by (auto split: prod.splits option.splits)
  from m c have s: "snd (LocalStorage_Move ls src dst w) = snd (LocalStorage_Delete ls src w3)"
    by (auto split: prod.splits option.splits)
  from Local_Move_calls_renamed [OF assms(4,5)] Local_Copy_calls [OF assms(1-3) c]
    Local_Delete_calls [OF assms(1,2), of w3] s
  show ?thesis by simp
qed

lemma GCS_Move_result:
  assumes "checkClientAndBucket gs = None" and "src \<noteq> []" and "dst \<noteq> []"
  shows "GCSStorage_Move gs src dst g =
           (case GCSStorage_Copy gs src dst g of
              (Some err, g1) \<Rightarrow> (Some (Errorf_w ''failed to copy file %q to %q'' [src, dst] err), g1)
            | (None, g1) \<Rightarrow>
                (case GCSStorage_Delete gs src g1 of
                   (Some err, g2) \<Rightarrow> (Some (Errorf_w ''failed to delete file %q'' [src] err), g2)
                 | (None, g2) \<Rightarrow> (None, g2)))"
  using assms by (simp add: GCSStorage_Move_def)

lemma CopierFrom_Run_calls:
  "gcs_calls (snd (CopierFrom_Run b src dst g)) = gcs_calls g @ [Call_CopierRun b src dst]"
  by (simp add: CopierFrom_Run_def split_beta split: option.split)

lemma Object_Delete_calls:
  "gcs_calls (snd (Object_Delete b nm g)) = gcs_calls g @ [Call_Delete_Object b nm]"
  by (simp add: Object_Delete_def split_beta split: option.split)

lemma GCS_Copy_calls:
  assumes "checkClientAndBucket gs = None" and "src \<noteq> []" and "dst \<noteq> []"
  shows "gcs_calls (snd (GCSStorage_Copy gs src dst g)) =
           gcs_calls g @ [Call_CopierRun (bucketName gs) src dst]"
  using assms CopierFrom_Run_calls [of "bucketName gs" src dst g]
  by (auto simp add: GCSStorage_Copy_def split: prod.split option.split)

lemma GCS_Delete_calls:
  assumes "checkClientAndBucket gs = None" and "nm \<noteq> []"
  shows "gcs_calls (snd (GCSStorage_Delete gs nm g)) =
           gcs_calls g @ [Call_Delete_Object (bucketName gs) nm]"
  using assms Object_Delete_calls [of "bucketName gs" nm g]
  by (auto simp add: GCSStorage_Delete_def Let_def split: prod.split option.split)

lemma GCS_Move_calls:
  assumes "checkClientAndBucket gs = None" and "src \<noteq> []" and "dst \<noteq> []"
  shows "gcs_calls (snd (GCSStorage_Move gs src dst g)) =
           (if fst (GCSStorage_Copy gs src dst g) = None
            then gcs_calls g @ [Call_CopierRun (bucketName gs) src dst, Call_Delete_Object (bucketName gs) src]
            else gcs_calls g @ [Call_CopierRun (bucketName gs) src dst])"
proof (cases "GCSStorage_Copy gs src dst g")
  case (Pair r g1)
  from GCS_Copy_calls [OF assms, of g] Pair
  have c: "gcs_calls g1 = gcs_calls g @ [Call_CopierRun (bucketName gs) src dst]" by simp
  show ?thesis
  proof (cases r)
    case None
    with Pair c GCS_Delete_calls [OF assms(1,2), of g1] show ?thesis
      by (auto simp add: GCS_Move_result [OF assms] split: prod.split option.split)
  next
    case (Some err)
    with Pair c show ?thesis by (simp add: GCS_Move_result [OF assms])
  qed
qed

text \<open>
  C5. On configured instances and with non-empty names. Local \<open>Move\<close>, once the
  destination's directory has been made: its backend calls begin with \<open>os.MkdirAll\<close> and
  \<open>os.Rename\<close>; when the rename returns no error, \<open>Move\<close> returns no error in the state
  the rename left, and these two are all its calls; when the rename fails, \<open>Move\<close> is
  \<open>Copy\<close> from that state and, if \<open>Copy\<close> returns no error, \<open>Delete\<close> of the source, each
  error wrapped, and a \<open>Move\<close> that then returns no error has opened, created, written
  and removed in this order. Cloud \<open>Move\<close> is always \<open>Copy\<close> and then, if \<open>Copy\<close> returns
  no error, \<open>Delete\<close> of the source: its calls are the copier's run and, after a successful
  copy, the delete of the source object; there is no rename among the calls.
\<close>

theorem Move_is_rename_else_copy_then_delete:
  assumes "checkRootDir ls = None" and "checkClientAndBucket gs = None"
    and "src \<noteq> []" and "dst \<noteq> []"
    and "os_MkdirAll (Dir_path (Join [rootDir ls, dst])) 493 w = (None, w1)"
    and "os_Rename (Join [rootDir ls, src]) (Join [rootDir ls, dst]) w1 = (r, w2)"
  shows
    "(r = None \<longrightarrow>
        LocalStorage_Move ls src dst w = (None, w2) \<and>
        calls w2 =
          calls w @
          [Call_MkdirAll (Dir_path (Join [rootDir ls, dst])) 493,
           Call_Rename (Join [rootDir ls, src]) (Join [rootDir ls, dst])]) \<and>
     (r \<noteq> None \<longrightarrow>
        LocalStorage_Move ls src dst w =
          (case LocalStorage_Copy ls src dst w2 of
             (Some err, w3) \<Rightarrow> (Some (Errorf_w ''failed to copy file %q to %q'' [src, dst] err), w3)
           | (None, w3) \<Rightarrow>
               (case LocalStorage_Delete ls src w3 of
                  (Some err, w4) \<Rightarrow> (Some (Errorf_w ''failed to delete file %q'' [src] err), w4)
                | (None, w4) \<Rightarrow> (None, w4))) \<and>
        (fst (LocalStorage_Move ls src dst w) = None \<longrightarrow>
           calls (snd (LocalStorage_Move ls src dst w)) =
             calls w @
             [Call_MkdirAll (Dir_path (Join [rootDir ls, dst])) 493,
              Call_Rename (Join [rootDir ls, src]) (Join [rootDir ls, dst]),
              Call_Open (Join [rootDir ls, src]),
              Call_MkdirAll (Dir_path (Join [rootDir ls, dst])) 493,
              Call_Create (Join [rootDir ls, dst]),
              Call_Write (Join [rootDir ls, dst]),
              Call_Remove (Join [rootDir ls, src])])) \<and>
     GCSStorage_Move gs src dst g =
       (case GCSStorage_Copy gs src dst g of
          (Some err, g1) \<Rightarrow> (Some (Errorf_w ''failed to copy file %q to %q'' [src, dst] err), g1)
        | (None, g1) \<Rightarrow>
            (case GCSStorage_Delete gs src g1 of
               (Some err, g2) \<Rightarrow> (Some (Errorf_w ''failed to delete file %q'' [src] err), g2)
             | (None, g2) \<Rightarrow> (None, g2))) \<and>
     gcs_calls (snd (GCSStorage_Move gs src dst g)) =
       (if fst (GCSStorage_Copy gs src dst g) = None
        then gcs_calls g @
             [Call_CopierRun (bucketName gs) src dst, Call_Delete_Object (bucketName gs) src]
        else gcs_calls g @ [Call_CopierRun (bucketName gs) src dst])"
proof (intro conjI impI)
  assume "r = None"
  with Local_Move_result [OF assms(1,3,4,5,6)]
  show "LocalStorage_Move ls src dst w = (None, w2)" by simp
next
  show "calls w2 =
          calls w @
          [Call_MkdirAll (Dir_path (Join [rootDir ls, dst])) 493,
           Call_Rename (Join [rootDir ls, src]) (Join [rootDir ls, dst])]"
    by (rule Local_Move_calls_renamed [OF assms(5,6)])
next
  assume "r \<noteq> None"
  with Local_Move_result [OF assms(1,3,4,5,6)]
  show "LocalStorage_Move ls src dst w =
          (case LocalStorage_Copy ls src dst w2 of
             (Some err, w3) \<Rightarrow> (Some (Errorf_w ''failed to copy file %q to %q'' [src, dst] err), w3)
           | (None, w3) \<Rightarrow>
               (case LocalStorage_Delete ls src w3 of
                  (Some err, w4) \<Rightarrow> (Some (Errorf_w ''failed to delete file %q'' [src] err), w4)
                | (None, w4) \<Rightarrow> (None, w4)))"
    by auto
next
  assume "r \<noteq> None" and ok: "fst (LocalStorage_Move ls src dst w) = None"
  then obtain e where "r = Some e" by auto
  with assms(6) have "os_Rename (Join [rootDir ls, src]) (Join [rootDir ls, dst]) w1 = (Some e, w2)"
    by simp
  from Local_Move_calls_copied [OF assms(1,3,4,5) this ok]
  show "calls (snd (LocalStorage_Move ls src dst w)) =
             calls w @
             [Call_MkdirAll (Dir_path (Join [rootDir ls, dst])) 493,
              Call_Rename (Join [rootDir ls, src]) (Join [rootDir ls, dst]),
              Call_Open (Join [rootDir ls, src]),
              Call_MkdirAll (Dir_path (Join [rootDir ls, dst])) 493,
              Call_Create (Join [rootDir ls, dst]),
              Call_Write (Join [rootDir ls, dst]),
              Call_Remove (Join [rootDir ls, src])]" .
next
  show "GCSStorage_Move gs src dst g =
       (case GCSStorage_Copy gs src dst g of
          (Some err, g1) \<Rightarrow> (Some (Errorf_w ''failed to copy file %q to %q'' [src, dst] err), g1)
        | (None, g1) \<Rightarrow>
            (case GCSStorage_Delete gs src g1 of
               (Some err, g2) \<Rightarrow> (Some (Errorf_w ''failed to delete file %q'' [src] err), g2)
             | (None, g2) \<Rightarrow> (None, g2)))"
    by (rule GCS_Move_result [OF assms(2,3,4)])
next
  show "gcs_calls (snd (GCSStorage_Move gs src dst g)) =
       (if fst (GCSStorage_Copy gs src dst g) = None
        then gcs_calls g @
             [Call_CopierRun (bucketName gs) src dst, Call_Delete_Object (bucketName gs) src]
        else gcs_calls g @ [Call_CopierRun (bucketName gs) src dst])"
    by (rule GCS_Move_calls [OF assms(2,3,4)])
qed

theorem Move_is_rename_else_copy_then_delete_witness:
  "fst (LocalStorage_Move example_local ''a/b.txt'' ''c/d.txt'' fs_with_object) = None \<and>
   calls (snd (LocalStorage_Move example_local ''a/b.txt'' ''c/d.txt'' fs_with_object)) =
     [Call_MkdirAll ''/data/c'' 493, Call_Rename ''/data/a/b.txt'' ''/data/c/d.txt''] \<and>
   fst (LocalStorage_Move example_local ''a/b.txt'' ''c/d.txt''
          (fs_with_object\<lparr>faults := [NoFault, Fail EXDEV]\<rparr>)) = None \<and>
   calls (snd (LocalStorage_Move example_local ''a/b.txt'' ''c/d.txt''
          (fs_with_object\<lparr>faults := [NoFault, Fail EXDEV]\<rparr>))) =
     [Call_MkdirAll ''/data/c'' 493, Call_Rename ''/data/a/b.txt'' ''/data/c/d.txt'',
      Call_Open ''/data/a/b.txt'', Call_MkdirAll ''/data/c'' 493, Call_Create ''/data/c/d.txt'',
      Call_Write ''/data/c/d.txt'', Call_Remove ''/data/a/b.txt''] \<and>
   gcs_calls (snd (GCSStorage_Move example_gcs ''a/b.txt'' ''c/d.txt'' cloud_with_objects)) =
     [Call_CopierRun ''bucket'' ''a/b.txt'' ''c/d.txt'', Call_Delete_Object ''bucket'' ''a/b.txt'']"
proof -
  let ?v = "fs_with_object\<lparr>faults := [NoFault, Fail EXDEV]\<rparr>"
  have 1: "checkRootDir example_local = None" by (simp add: local_eval)
  have 2: "checkClientAndBucket example_gcs = None" by (simp add: gcs_eval)
  have 3: "''a/b.txt'' \<noteq> []" "''c/d.txt'' \<noteq> []" by simp_all
  have p: "Dir_path (Join [rootDir example_local, ''c/d.txt'']) = ''/data/c''"
    "Join [rootDir example_local, ''a/b.txt''] = ''/data/a/b.txt''"
    "Join [rootDir example_local, ''c/d.txt''] = ''/data/c/d.txt''"
    "bucketName example_gcs = ''bucket''"
    by (simp_all add: local_eval path_eval gcs_eval)
  have m: "fst (os_MkdirAll ''/data/c'' 493 fs_with_object) = None"
    by (simp add: fs_with_object_def local_eval path_eval tree_eval)
  have r: "fst (os_Rename ''/data/a/b.txt'' ''/data/c/d.txt'' (snd (os_MkdirAll ''/data/c'' 493 fs_with_object))) = None"
    by (simp add: fs_with_object_def local_eval path_eval tree_eval)
  have m': "fst (os_MkdirAll ''/data/c'' 493 ?v) = None"
    by (simp add: fs_with_object_def local_eval path_eval tree_eval)
  have r': "fst (os_Rename ''/data/a/b.txt'' ''/data/c/d.txt'' (snd (os_MkdirAll ''/data/c'' 493 ?v))) =
              Some (LinkError ''rename'' ''/data/a/b.txt'' ''/data/c/d.txt'' EXDEV)"
    by (simp add: fs_with_object_def local_eval path_eval tree_eval)
  have ok: "fst (LocalStorage_Move example_local ''a/b.txt'' ''c/d.txt'' ?v) = None"
    by (simp add: LocalStorage_Move_def LocalStorage_Copy_def LocalStorage_Delete_def
        fs_with_object_def local_eval path_eval tree_eval)
  have c: "fst (GCSStorage_Copy example_gcs ''a/b.txt'' ''c/d.txt'' cloud_with_objects) = None"
    by (simp add: GCSStorage_Copy_def CopierFrom_Run_def cloud_with_objects_def gcs_eval)
  have e: "calls fs_with_object = []" "calls ?v = []" "gcs_calls cloud_with_objects = []"
    by (simp_all add: fs_with_object_def example_fs_def cloud_with_objects_def example_cloud_def)
  have a: "os_MkdirAll (Dir_path (Join [rootDir example_local, ''c/d.txt''])) 493 fs_with_object =
             (None, snd (os_MkdirAll ''/data/c'' 493 fs_with_object))"
    using m p by (simp add: prod_eq_iff)
  have b: "os_Rename (Join [rootDir example_local, ''a/b.txt'']) (Join [rootDir example_local, ''c/d.txt''])
             (snd (os_MkdirAll ''/data/c'' 493 fs_with_object)) =
           (None, snd (os_Rename ''/data/a/b.txt'' ''/data/c/d.txt'' (snd (os_MkdirAll ''/data/c'' 493 fs_with_object))))"
    using r p by (simp add: prod_eq_iff)
  have a': "os_MkdirAll (Dir_path (Join [rootDir example_local, ''c/d.txt''])) 493 ?v =
             (None, snd (os_MkdirAll ''/data/c'' 493 ?v))"
    using m' p by (simp add: prod_eq_iff)
  have b': "os_Rename (Join [rootDir example_local, ''a/b.txt'']) (Join [rootDir example_local, ''c/d.txt''])
             (snd (os_MkdirAll ''/data/c'' 493 ?v)) =
           (Some (LinkError ''rename'' ''/data/a/b.txt'' ''/data/c/d.txt'' EXDEV),
            snd (os_Rename ''/data/a/b.txt'' ''/data/c/d.txt'' (snd (os_MkdirAll ''/data/c'' 493 ?v))))"
    using r' p by (simp add: prod_eq_iff)
  note t1 = Move_is_rename_else_copy_then_delete [OF 1 2 3(1,2) a b]
  note t2 = Move_is_rename_else_copy_then_delete [OF 1 2 3(1,2) a' b']
  note t3 = Move_is_rename_else_copy_then_delete [OF 1 2 3(1,2) a b, of cloud_with_objects]
  have ne: "Some (LinkError ''rename'' ''/data/a/b.txt'' ''/data/c/d.txt'' EXDEV) \<noteq> None" by simp
  from t1 [THEN conjunct1, rule_format, OF refl]
  have x: "fst (LocalStorage_Move example_local ''a/b.txt'' ''c/d.txt'' fs_with_object) = None"
    "calls (snd (LocalStorage_Move example_local ''a/b.txt'' ''c/d.txt'' fs_with_object)) =
       [Call_MkdirAll ''/data/c'' 493, Call_Rename ''/data/a/b.txt'' ''/data/c/d.txt'']"
    using p e by simp_all
  from t2 [THEN conjunct2, THEN conjunct1, rule_format, OF ne, THEN conjunct2, rule_format, OF ok]
  have y: "calls (snd (LocalStorage_Move example_local ''a/b.txt'' ''c/d.txt'' ?v)) =
     [Call_MkdirAll ''/data/c'' 493, Call_Rename ''/data/a/b.txt'' ''/data/c/d.txt'',
      Call_Open ''/data/a/b.txt'', Call_MkdirAll ''/data/c'' 493, Call_Create ''/data/c/d.txt'',
      Call_Write ''/data/c/d.txt'', Call_Remove ''/data/a/b.txt'']"
    using p e by simp
  from t3 [THEN conjunct2, THEN conjunct2, THEN conjunct2] c
  have z: "gcs_calls (snd (GCSStorage_Move example_gcs ''a/b.txt'' ''c/d.txt'' cloud_with_objects)) =
     [Call_CopierRun ''bucket'' ''a/b.txt'' ''c/d.txt'', Call_Delete_Object ''bucket'' ''a/b.txt'']"
    using p e by simp
  from x ok y z show ?thesis by simp
qed

section \<open>List on the local backend\<close>

lemma nth_fault_tl: "nth_fault (tl fs) i = nth_fault fs (Suc i)"
  by (cases fs) (simp_all add: nth_fault_def)

lemma enter_nth_fault: "fst (enter c w) = nth_fault (faults w) 0"
  by (simp add: enter_def nth_fault_def split: list.split)

lemma fault_errno_None: "(fault_errno f = None) = (f = NoFault)"
  by (cases f) (simp_all add: fault_errno_def)

lemma DirEntry_Info_result:
  assumes "tree v = tree w" and "cwd v = cwd w"
  shows "fst (DirEntry_Info d v) =
           (if nth_fault (faults v) 0 \<noteq> NoFault
            then Inl (PathError ''lstat'' (entry_path d) (the (fault_errno (nth_fault (faults v) 0))))
            else (case stat_entry w d of
                    None \<Rightarrow> Inl (PathError ''lstat'' (entry_path d)
                               (case locate w (entry_path d) of Inl e \<Rightarrow> e | Inr n \<Rightarrow> EIO))
                  | Some info \<Rightarrow> Inr info))"
    and "snd (DirEntry_Info d v) = snd (enter (Call_Lstat (entry_path d)) v)"
proof -
  have l: "locate v (entry_path d) = locate w (entry_path d)"
    using assms by (rule locate_same)
  show "fst (DirEntry_Info d v) =
           (if nth_fault (faults v) 0 \<noteq> NoFault
            then Inl (PathError ''lstat'' (entry_path d) (the (fault_errno (nth_fault (faults v) 0))))
            else (case stat_entry w d of
                    None \<Rightarrow> Inl (PathError ''lstat'' (entry_path d)
                               (case locate w (entry_path d) of Inl e \<Rightarrow> e | Inr n \<Rightarrow> EIO))
                  | Some info \<Rightarrow> Inr info))"
    using l
    by (cases "nth_fault (faults v) 0")
      (auto simp add: DirEntry_Info_def split_beta enter_nth_fault stat_entry_def fault_errno_def
        split: sum.splits node.splits)
  show "snd (DirEntry_Info d v) = snd (enter (Call_Lstat (entry_path d)) v)"
    by (simp add: DirEntry_Info_def split_beta split: option.split sum.split node.split)
qed

lemma List_loop_listed:
  assumes "\<forall>i < length (filter (\<lambda>d. \<not> entry_IsDir d) files).
             nth_fault (faults v) i = F (filter (\<lambda>d. \<not> entry_IsDir d) files ! i)"
    and "tree v = tree w" and "cwd v = cwd w"
  shows "fst (LocalStorage_List_loop s prefix files objs v) =
           objs @ List.map_filter (listed_entry prefix w F) files"
  using assms
proof (induction files arbitrary: objs v)
  case Nil
  then show ?case by (simp add: map_filter_simps)
next
  case (Cons d ds)
  show ?case
  proof (cases "entry_IsDir d")
    case True
    with Cons.prems have "\<forall>i < length (filter (\<lambda>d. \<not> entry_IsDir d) ds).
             nth_fault (faults v) i = F (filter (\<lambda>d. \<not> entry_IsDir d) ds ! i)" by simp
    from Cons.IH [OF this Cons.prems(2,3)] True show ?thesis
      by (simp add: map_filter_simps listed_entry_def)
  next
    case False
    obtain res v1 where dv: "DirEntry_Info d v = (res, v1)" by (cases "DirEntry_Info d v")
    have v1: "v1 = snd (enter (Call_Lstat (entry_path d)) v)"
      using DirEntry_Info_result(2) [OF Cons.prems(2,3), of d] dv by simp
    have f0: "nth_fault (faults v) 0 = F d"
      using Cons.prems(1) False by auto
    have "\<forall>i < length (filter (\<lambda>d. \<not> entry_IsDir d) ds).
             nth_fault (faults v1) i = F (filter (\<lambda>d. \<not> entry_IsDir d) ds ! i)"
    proof (intro allI impI)
      fix i assume "i < length (filter (\<lambda>d. \<not> entry_IsDir d) ds)"
      with Cons.prems(1) False
      have "nth_fault (faults v) (Suc i) = F (filter (\<lambda>d. \<not> entry_IsDir d) (d # ds) ! Suc i)"
        by auto
      with False show "nth_fault (faults v1) i = F (filter (\<lambda>d. \<not> entry_IsDir d) ds ! i)"
        by (simp add: v1 nth_fault_tl)
    qed
    moreover have "tree v1 = tree w" "cwd v1 = cwd w"
      using Cons.prems(2,3) by (simp_all add: v1)
    ultimately have ih: "\<And>objs. fst (LocalStorage_List_loop s prefix ds objs v1) =
           objs @ List.map_filter (listed_entry prefix w F) ds"
      by (rule Cons.IH)
    from DirEntry_Info_result(1) [OF Cons.prems(2,3), of d] dv f0
    have r: "res =
           (if F d \<noteq> NoFault
            then Inl (PathError ''lstat'' (entry_path d) (the (fault_errno (F d))))
            else (case stat_entry w d of
                    None \<Rightarrow> Inl (PathError ''lstat'' (entry_path d)
                               (case locate w (entry_path d) of Inl e \<Rightarrow> e | Inr n \<Rightarrow> EIO))
                  | Some info \<Rightarrow> Inr info))"
      by simp
    show ?thesis
    proof (cases "listed_entry prefix w F d")
      case None
      with False r obtain e where "res = Inl e"
        by (auto simp add: listed_entry_def split: option.splits if_splits)
      with False None ih dv show ?thesis by (simp add: map_filter_simps)
    next
      case (Some ob)
      with False obtain info where i: "stat_entry w d = Some info" and nf: "F d = NoFault"
        and ob: "ob = \<lparr>Name = Join [prefix, entry_Name d], Size = info_Size info,
                      UpdatedAt = info_ModTime info, Info_Metadata = []\<rparr>"
        by (auto simp add: listed_entry_def split: option.splits if_splits)
      with r have "res = Inr info" by simp
      with False Some ih ob dv show ?thesis
        by (simp add: map_filter_simps ToSlash_def LocalStorage_PathJoin_def)
    qed
  qed
qed

lemma quiet_nth_fault: "quiet fs = (nth_fault fs 0 = NoFault)"
  by (cases fs) (simp_all add: quiet_def nth_fault_def)

lemma in_map_filter: "y \<in> set (List.map_filter f xs) \<Longrightarrow> \<exists>x \<in> set xs. f x = Some y"
  by (auto simp add: List.map_filter_def)

lemma listed_entry_immediate:
  assumes "ob \<in> set (List.map_filter (listed_entry prefix w F) (sort_key entry_Name (dir_entries p es)))"
  shows "\<exists>(k, n) \<in> set es. \<not> is_dir n \<and> Name ob = Join [prefix, k]"
proof -
  from in_map_filter [OF assms]
  obtain d where d: "d \<in> set (dir_entries p es)" and l: "listed_entry prefix w F d = Some ob"
    by auto
  from d obtain k n where kn: "(k, n) \<in> set es" and dn: "entry_Name d = k" "entry_IsDir d = is_dir n"
    by (auto simp add: dir_entries_def)
  from l dn have "\<not> is_dir n \<and> Name ob = Join [prefix, k]"
    by (auto simp add: listed_entry_def split: if_splits option.splits)
  with kn show ?thesis by auto
qed

text \<open>
  C8. On a configured local instance and for a non-empty prefix whose path is a directory
  with the entries \<open>es\<close>, when \<open>os.ReadDir\<close> is not made to fail: \<open>List\<close> returns no error,
  whatever happens to the reads of the metadata, and its result is, in the order of
  \<open>os.ReadDir\<close>, the descriptor of every entry of that directory that is not a directory
  and whose metadata can be read (\<open>F d\<close> is what the environment injects into the read for
  the entry \<open>d\<close>). Every descriptor is of an entry of the directory itself, named by the
  prefix joined with the entry's name: nothing below a subdirectory is listed.
\<close>

theorem List_keeps_readable_files:
  assumes "checkRootDir ls = None" and "prefix \<noteq> []"
    and "locate w (Join [rootDir ls, prefix]) = Inr (Dir es)"
    and "files = sort_key entry_Name (dir_entries (Join [rootDir ls, prefix]) es)"
    and "quiet (faults w)"
    and "\<forall>i < length (filter (\<lambda>d. \<not> entry_IsDir d) files).
           nth_fault (faults w) (Suc i) = F (filter (\<lambda>d. \<not> entry_IsDir d) files ! i)"
  shows "fst (LocalStorage_List ls prefix w) = Inr (List.map_filter (listed_entry prefix w F) files) \<and>
         (\<forall>ob \<in> set (List.map_filter (listed_entry prefix w F) files).
            \<exists>(k, n) \<in> set es. \<not> is_dir n \<and> Name ob = Join [prefix, k])"
proof
  let ?p = "Join [rootDir ls, prefix]"
  let ?w1 = "snd (enter (Call_ReadDir ?p) w)"
  have rd: "os_ReadDir ?p w = (Inr files, ?w1)"
    using assms(3,4,5) by (simp add: os_ReadDir_quiet)
  have "\<forall>i < length (filter (\<lambda>d. \<not> entry_IsDir d) files).
           nth_fault (faults ?w1) i = F (filter (\<lambda>d. \<not> entry_IsDir d) files ! i)"
    using assms(6) by (simp add: nth_fault_tl)
  moreover have "tree ?w1 = tree w" "cwd ?w1 = cwd w" by simp_all
  ultimately have "fst (LocalStorage_List_loop ls prefix files [] ?w1) =
                     [] @ List.map_filter (listed_entry prefix w F) files"
    by (rule List_loop_listed)
  with assms(1,2) rd
  show "fst (LocalStorage_List ls prefix w) = Inr (List.map_filter (listed_entry prefix w F) files)"
    by (simp add: LocalStorage_List_def LocalStorage_PathJoin_def Let_def split_beta)
  show "\<forall>ob \<in> set (List.map_filter (listed_entry prefix w F) files).
            \<exists>(k, n) \<in> set es. \<not> is_dir n \<and> Name ob = Join [prefix, k]"
    using listed_entry_immediate assms(4) by blast
qed

theorem List_keeps_readable_files_witness:
  "locate fs_with_entries (Join [rootDir example_local, ''a'']) =
     Inr (Dir [(''b.txt'', File ''hello'' 1), (''sub'', Dir [(''deep.txt'', File ''x'' 1)]),
               (''c.txt'', File ''other'' 1)]) \<and>
   faults fs_with_entries = [NoFault, NoFault, Fail EIO] \<and>
   fst (LocalStorage_List example_local ''a'' fs_with_entries) =
     Inr [\<lparr>Name = ''a/b.txt'', Size = 5, UpdatedAt = 1, Info_Metadata = []\<rparr>]"
proof -
  let ?es = "[(''b.txt'', File ''hello'' 1), (''sub'', Dir [(''deep.txt'', File ''x'' 1)]),
              (''c.txt'', File ''other'' 1)]"
  let ?files = "[\<lparr>entry_Name = ''b.txt'', entry_IsDir = False, entry_path = ''/data/a/b.txt''\<rparr>,
    \<lparr>entry_Name = ''c.txt'', entry_IsDir = False, entry_path = ''/data/a/c.txt''\<rparr>,
    \<lparr>entry_Name = ''sub'', entry_IsDir = True, entry_path = ''/data/a/sub''\<rparr>]"
  let ?F = "\<lambda>d. if entry_Name d = ''c.txt'' then Fail EIO else NoFault"
  have 1: "checkRootDir example_local = None" by (simp add: local_eval)
  have 2: "''a'' \<noteq> []" by simp
  have p: "Join [rootDir example_local, ''a''] = ''/data/a''" by (simp add: local_eval path_eval)
  have 3: "locate fs_with_entries (Join [rootDir example_local, ''a'']) = Inr (Dir ?es)"
    by (simp add: fs_with_entries_def local_eval path_eval)
  have 4: "?files = sort_key entry_Name (dir_entries (Join [rootDir example_local, ''a'']) ?es)"
    by (simp add: p dir_entries_def is_dir_def less_eq_char_def less_char_def)
  have f: "faults fs_with_entries = [NoFault, NoFault, Fail EIO]"
    by (simp add: fs_with_entries_def)
  have 5: "quiet (faults fs_with_entries)" by (simp add: f quiet_def)
  have 6: "\<forall>i < length (filter (\<lambda>d. \<not> entry_IsDir d) ?files).
           nth_fault (faults fs_with_entries) (Suc i) = ?F (filter (\<lambda>d. \<not> entry_IsDir d) ?files ! i)"
    by (simp add: f nth_fault_def less_Suc_eq)
  have s: "stat_entry fs_with_entries \<lparr>entry_Name = ''b.txt'', entry_IsDir = False, entry_path = ''/data/a/b.txt''\<rparr> =
             Some \<lparr>info_Size = 5, info_ModTime = 1\<rparr>"
    by (simp add: stat_entry_def fs_with_entries_def local_eval path_eval)
  have 7: "List.map_filter (listed_entry ''a'' fs_with_entries ?F) ?files =
             [\<lparr>Name = ''a/b.txt'', Size = 5, UpdatedAt = 1, Info_Metadata = []\<rparr>]"
    by (simp add: listed_entry_def s path_eval)
  from List_keeps_readable_files [OF 1 2 3 4 5 6] 3 f 7 show ?thesis by simp
qed

section \<open>Put and Get on the local backend\<close>

lemma write_entry_Inr: "write_entry b now x = Inr r \<Longrightarrow> r = Some (File b now)"
  by (auto simp add: write_entry_def split: option.splits node.splits)

lemma set_tree_write:
  assumes "set_tree w p (alter (write_entry b now)) = (None, w1)"
  shows "locate w1 p = Inr (File b now)"
proof -
  from assms obtain t where p: "p \<noteq> []"
    and a: "alter (write_entry b now) (resolve (cwd w) p) (tree w) = Inr t"
    and w1: "w1 = w\<lparr>tree := t\<rparr>"
    by (auto simp add: set_tree_def split: if_splits sum.splits)
  from alter_node_at [OF a] write_entry_Inr
  have "node_at t (resolve (cwd w) p) = Some (File b now)" by blast
  then have "walk t (resolve (cwd w) p) = Inr (File b now)"
    by (simp add: node_at_def split: sum.splits)
  with p w1 show ?thesis by (simp add: locate_def)
qed

lemma io_Copy_success:
  assumes "io_Copy (OpenFile p) (Reader b rerr) w = ((n, None), w1)"
  shows "n = int (length b) \<and> rerr = None \<and> locate w1 p = Inr (File b (clock w))"
proof -
  let ?w0 = "snd (enter (Call_Write p) w)"
  from assms have "set_tree ?w0 p (alter (write_entry b (clock ?w0))) = (None, w1) \<and>
                   n = int (length b) \<and> rerr = None"
    by (auto simp add: io_Copy_def split_beta prod_eq_iff split: option.splits prod.splits if_splits)
  with set_tree_write [of ?w0 p b "clock ?w0" w1] show ?thesis by simp
qed

text \<open>
  The round trip on the local backend: when \<open>Put\<close> has returned no error, it has returned
  the length of the bytes, and a \<open>Get\<close> of the same name that the environment does not make
  fail returns an open file whose contents are the bytes.
\<close>

lemma Local_Put_Get_roundtrip:
  assumes "LocalStorage_Put ls nm (Reader b rerr) opts w = ((n, None), w1)" and "quiet (faults w1)"
  shows "n = int (length b) \<and>
         fst (LocalStorage_Get ls nm w1) = Inr (OpenFile (Join [rootDir ls, nm])) \<and>
         file_reader (OpenFile (Join [rootDir ls, nm])) (snd (LocalStorage_Get ls nm w1)) = Reader b None"
proof -
  let ?p = "Join [rootDir ls, nm]"
  from assms(1) have c: "checkRootDir ls = None" and nm: "nm \<noteq> []"
    by (auto simp add: LocalStorage_Put_def split: option.splits if_splits)
  from assms(1) c nm obtain wa where "os_MkdirAll (Dir_path ?p) 493 w = (None, wa)"
    by (auto simp add: LocalStorage_Put_def LocalStorage_PathJoin_def Let_def
        split: prod.splits option.splits)
  with assms(1) c nm obtain f wb where cr: "os_Create ?p wa = (Inr f, wb)"
    and io: "io_Copy f (Reader b rerr) wb = ((n, None), w1)"
    by (auto simp add: LocalStorage_Put_def LocalStorage_PathJoin_def Let_def
        split: prod.splits option.splits sum.splits)
  from os_Create_file [OF cr] io have "io_Copy (OpenFile ?p) (Reader b rerr) wb = ((n, None), w1)"
    by simp
  from io_Copy_success [OF this] have n: "n = int (length b)"
    and l: "locate w1 ?p = Inr (File b (clock wb))" by simp_all
  from l assms(2) have o: "os_Open ?p w1 = (Inr (OpenFile ?p), snd (enter (Call_Open ?p) w1))"
    by (simp add: os_Open_def enter_quiet split_beta)
  with c nm have g: "LocalStorage_Get ls nm w1 = (Inr (OpenFile ?p), snd (enter (Call_Open ?p) w1))"
    by (simp add: LocalStorage_Get_def LocalStorage_PathJoin_def Let_def)
  with l n show ?thesis by (simp add: file_reader_def)
qed

text \<open>
  On both backends an error of \<open>Put\<close> comes with the count \<open>0\<close>.
\<close>

lemma Local_Put_error_count:
  "snd (fst (LocalStorage_Put ls nm r opts w)) \<noteq> None \<Longrightarrow> fst (fst (LocalStorage_Put ls nm r opts w)) = 0"
  by (auto simp add: LocalStorage_Put_def Let_def split: option.splits prod.splits sum.splits if_splits)

lemma GCS_Put_error_count:
  "snd (fst (GCSStorage_Put gs nm r opts g)) \<noteq> None \<Longrightarrow> fst (fst (GCSStorage_Put gs nm r opts g)) = 0"
  by (auto simp add: GCSStorage_Put_def Let_def split: option.splits prod.splits sum.splits if_splits)

text \<open>
  The scenario on the local backend: \<open>Put\<close> of five bytes at \<open>a/b.txt\<close>, then \<open>List\<close> of
  \<open>a\<close>, gives one entry named \<open>a/b.txt\<close> of size 5.
\<close>

lemma Local_Put_List_scenario:
  "(case LocalStorage_Put example_local ''a/b.txt'' (Reader ''hello'' None) None example_fs of
      (r, w1) \<Rightarrow> (r, fst (LocalStorage_List example_local ''a'' w1))) =
   ((5, None), Inr [\<lparr>Name = ''a/b.txt'', Size = 5, UpdatedAt = 1, Info_Metadata = []\<rparr>])"
  by (simp add: LocalStorage_Put_def LocalStorage_List_def local_eval path_eval tree_eval)

end
